theory Spec2Isabelle
  imports Complex_Main "HOL-Library.AList" "HOL-Library.Multiset"
begin

section \<open>ScreenCap.py: strings and paths\<close>

definition endswith :: "string \<Rightarrow> string \<Rightarrow> bool" where
  "endswith s suf = (length suf \<le> length s \<and> drop (length s - length suf) s = suf)"

text \<open>\<open>str(n)\<close> of a non-negative Python integer, as the f-strings of the file names use it.\<close>

definition digit_char :: "nat \<Rightarrow> char" where
  "digit_char d = ''0123456789'' ! d"

function str_nat :: "nat \<Rightarrow> string" where
  "str_nat n = (if n < 10 then [digit_char n] else str_nat (n div 10) @ [digit_char (n mod 10)])"
  by pat_completeness auto
termination
  by (relation "measure (\<lambda>n. n)") auto

declare str_nat.simps [simp del]

text \<open>\<open>str.rfind\<close> of one character: the last index, or -1.\<close>

definition rfind :: "string \<Rightarrow> char \<Rightarrow> int" where
  "rfind p c =
     (case filter (\<lambda>i. p ! i = c) (rev [0..<length p]) of
        [] \<Rightarrow> - 1
      | i # _ \<Rightarrow> int i)"

text \<open>
  \<open>os.path.splitext\<close> (posixpath): the extension starts at the last dot after the last
  separator, unless only dots stand between the separator and that dot.
\<close>

definition splitext :: "string \<Rightarrow> string \<times> string" where
  "splitext p =
     (let sepIndex = rfind p CHR ''/'';
          dotIndex = rfind p CHR ''.''
      in if dotIndex > sepIndex
            \<and> (\<exists>c \<in> set (drop (nat (sepIndex + 1)) (take (nat dotIndex) p)). c \<noteq> CHR ''.'')
         then (take (nat dotIndex) p, drop (nat dotIndex) p)
         else (p, []))"

text \<open>\<open>os.path.join\<close> (posixpath) of two components.\<close>

definition join :: "string \<Rightarrow> string \<Rightarrow> string" where
  "join a b =
     (if b \<noteq> [] \<and> hd b = CHR ''/'' then b
      else if a = [] \<or> last a = CHR ''/'' then a @ b
      else a @ ''/'' @ b)"

definition top_working_dir :: string where
  "top_working_dir = ''/ScreenCap''"

definition input_dir :: string where
  "input_dir = join top_working_dir ''input''"

definition work_dir :: string where
  "work_dir = join top_working_dir ''Work''"

definition output_dir :: string where
  "output_dir = join top_working_dir ''output''"

definition screencaps_dir :: string where
  "screencaps_dir = join work_dir ''screencaps''"

definition faces_dir :: string where
  "faces_dir = join work_dir ''faces''"

section \<open>The file system the script works on\<close>

text \<open>
  A directory is the list of its entries; an entry is a file holding an image or a
  subdirectory. The state holds the three directories the script changes
  (\<open>Work/screencaps\<close>, \<open>Work/faces\<close> and \<open>output\<close>) and the lines it prints. The two
  working directories are the ones the script lists (\<open>os.listdir\<close>, and the scan of
  \<open>shutil.copytree\<close>): their lists are in listing order. The script never lists the
  output hierarchy.
\<close>

datatype 'i node = File 'i | Dir "(string \<times> 'i node) list"

type_synonym 'i dir = "(string \<times> 'i node) list"

text \<open>An image is a decoded frame, or the slice \<open>frame[a:b, c:d]\<close> of one.\<close>

datatype 'f image = Full 'f | Crop 'f int int int int

datatype error =
    IsADirectoryError
  | FileExistsError
  | NotADirectoryError
  | FileNotFoundError
  | Cv2Error
  | External string

record 'f fs =
  screencaps :: "'f image dir"
  faces :: "'f image dir"
  outputs :: "'f image dir"
  printed :: "string list"

definition print :: "string \<Rightarrow> 'f fs \<Rightarrow> 'f fs" where
  "print s st = st\<lparr>printed := printed st @ [s]\<rparr>"

section \<open>What the script takes from outside\<close>

text \<open>
  \<open>cap.read()\<close> gives the next frame, or \<open>ret = False\<close> when the video is exhausted or
  the next frame cannot be decoded. A capture that could not be opened answers
  \<open>isOpened()\<close> with False.
\<close>

datatype 'f read = Frame 'f | DecodeFail

datatype 'f capture = Unopened | Opened "'f read list"

text \<open>A YOLO box: its corner coordinates \<open>xyxy\<close> and its confidence \<open>conf\<close>.\<close>

record box =
  xyxy :: "real \<times> real \<times> real \<times> real"
  conf :: real

text \<open>
  What the script calls and does not define, and what the file system and the frames
  decide:
  \<^item> \<open>find_spec\<close>: whether \<open>importlib.util.find_spec\<close> finds a module;
  \<^item> \<open>str_lower\<close>: Python's \<open>str.lower\<close>, which is defined on all of Unicode;
  \<^item> \<open>listdir_input\<close>: \<open>os.listdir(input_dir)\<close>;
  \<^item> \<open>listdir_place\<close>: the place at which the file system lists a new name among the
    names a directory holds, \<open>os.listdir\<close> giving the entries in an order of its own;
  \<^item> \<open>video_capture\<close>: \<open>cv2.VideoCapture\<close> by path;
  \<^item> \<open>frame_shape\<close>: the rows and columns of a frame;
  \<^item> \<open>face_locations\<close> of \<open>face_recognition\<close> and the YOLO model; each call may raise.
\<close>

record 'f env =
  find_spec :: "string \<Rightarrow> bool"
  str_lower :: "string \<Rightarrow> string"
  listdir_input :: "string list"
  listdir_place :: "string \<Rightarrow> string list \<Rightarrow> nat"
  video_capture :: "string \<Rightarrow> 'f capture"
  frame_shape :: "'f \<Rightarrow> nat \<times> nat"
  face_locations :: "'f \<Rightarrow> error + (int \<times> int \<times> int \<times> int) list"
  yolo_model :: "'f \<Rightarrow> error + box list"

text \<open>\<open>f.lower().endswith((".mp4", ".avi", ".mkv"))\<close>, line 121.\<close>

definition is_video :: "'f env \<Rightarrow> string \<Rightarrow> bool" where
  "is_video env f =
     (endswith (str_lower env f) ''.mp4''
      \<or> endswith (str_lower env f) ''.avi''
      \<or> endswith (str_lower env f) ''.mkv'')"

section \<open>Writing an image\<close>

text \<open>
  The length of the slice \<open>a:b\<close> of an axis of length \<open>n\<close> (numpy, as Python's
  \<open>slice.indices\<close>): a negative bound counts from the end, and both are clipped to the
  axis.
\<close>

definition slice_bound :: "nat \<Rightarrow> int \<Rightarrow> int" where
  "slice_bound n i = (if i < 0 then max (i + int n) 0 else min i (int n))"

definition slice_len :: "nat \<Rightarrow> int \<Rightarrow> int \<Rightarrow> nat" where
  "slice_len n a b = nat (slice_bound n b - slice_bound n a)"

text \<open>An image is empty when it has no row or no column.\<close>

definition empty_image :: "('f \<Rightarrow> nat \<times> nat) \<Rightarrow> 'f image \<Rightarrow> bool" where
  "empty_image shape img =
     (case img of
        Full f \<Rightarrow> fst (shape f) = 0 \<or> snd (shape f) = 0
      | Crop f a b c d \<Rightarrow>
          slice_len (fst (shape f)) a b = 0 \<or> slice_len (snd (shape f)) c d = 0)"

definition insert_at :: "nat \<Rightarrow> 'a \<Rightarrow> 'a list \<Rightarrow> 'a list" where
  "insert_at k x xs = take k xs @ x # drop k xs"

text \<open>
  \<open>cv2.imwrite(path, img)\<close> raises \<open>cv2.error\<close> on an empty image. Otherwise it stores
  the image under the name: in place of a file of that name, or as a new entry, which the
  directory lists where the file system puts it. Where the name is a directory it writes
  nothing and returns False, which the script does not look at.
\<close>

definition imwrite :: "'f env \<Rightarrow> string \<Rightarrow> 'f image \<Rightarrow> 'f image dir \<Rightarrow> error + 'f image dir" where
  "imwrite env name img d =
     (if empty_image (frame_shape env) img then Inl Cv2Error
      else case map_of d name of
             Some (Dir _) \<Rightarrow> Inr d
           | Some (File _) \<Rightarrow> Inr (AList.update name (File img) d)
           | None \<Rightarrow> Inr (insert_at (listdir_place env name (map fst d)) (name, File img) d))"

section \<open>Workspace reset\<close>

text \<open>
  Lines 134-135: \<open>for file in os.listdir(dir_path): os.unlink(...)\<close>. \<open>os.unlink\<close> removes
  a file and raises on a directory; the entries before it are gone by then.
\<close>

fun unlink_all :: "'i dir \<Rightarrow> error option \<times> 'i dir" where
  "unlink_all [] = (None, [])"
| "unlink_all ((name, File img) # d) = unlink_all d"
| "unlink_all ((name, Dir c) # d) = (Some IsADirectoryError, (name, Dir c) # d)"

text \<open>Lines 132-135: the two working directories are cleared in turn.\<close>

definition reset :: "'f fs \<Rightarrow> error option \<times> 'f fs" where
  "reset st =
     (case unlink_all (screencaps st) of
        (Some e, d) \<Rightarrow> (Some e, st\<lparr>screencaps := d\<rparr>)
      | (None, d) \<Rightarrow>
          (case unlink_all (faces st) of
             (r, d') \<Rightarrow> (r, st\<lparr>screencaps := d, faces := d'\<rparr>)))"

section \<open>Dependency check, lines 28-48\<close>

definition dependencies :: "(string \<times> string) list" where
  "dependencies =
     [(''cv2'', ''opencv-python''),
      (''face_recognition'', ''face_recognition''),
      (''PIL'', ''Pillow''),
      (''tqdm'', ''tqdm''),
      (''ultralytics'', ''ultralytics'')]"

fun join_with :: "string \<Rightarrow> string list \<Rightarrow> string" where
  "join_with sep [] = []"
| "join_with sep [x] = x"
| "join_with sep (x # y # ys) = x @ sep @ join_with sep (y # ys)"

text \<open>The result is the lines printed and the exit status, if the script exits.\<close>

definition check_dependencies :: "'f env \<Rightarrow> string list \<times> nat option" where
  "check_dependencies env =
     (let missing = map snd (filter (\<lambda>(module, package). \<not> find_spec env module) dependencies)
      in if missing \<noteq> []
         then ([''The following dependencies are missing:'']
               @ map (\<lambda>package. ''- '' @ package) missing
               @ [CHR 0x0A # ''Install them using the following command:'',
                  ''pip install '' @ join_with '' '' missing],
               Some 1)
         else ([], None))"

section \<open>The two detectors\<close>

text \<open>
  A \<open>for\<close> loop whose body may raise: the exception ends the loop with the state the
  bodies before it have made.
\<close>

fun for_each :: "('a \<Rightarrow> 's \<Rightarrow> error + 's) \<Rightarrow> 'a list \<Rightarrow> 's \<Rightarrow> error option \<times> 's" where
  "for_each body [] s = (None, s)"
| "for_each body (x # xs) s =
     (case body x s of
        Inl e \<Rightarrow> (Some e, s)
      | Inr s' \<Rightarrow> for_each body xs s')"

text \<open>\<open>int(x)\<close> of a float truncates towards zero.\<close>

definition py_int :: "real \<Rightarrow> int" where
  "py_int x = (if 0 \<le> x then \<lfloor>x\<rfloor> else \<lceil>x\<rceil>)"

definition realistic_name :: "nat \<Rightarrow> nat \<Rightarrow> string" where
  "realistic_name frame_count i =
     ''realistic_face_'' @ str_nat frame_count @ ''_'' @ str_nat i @ ''.jpg''"

definition anime_name :: "nat \<Rightarrow> nat \<Rightarrow> string" where
  "anime_name frame_count i =
     ''anime_face_'' @ str_nat frame_count @ ''_'' @ str_nat i @ ''.jpg''"

text \<open>Line 84: \<open>frame[top:bottom, left:right]\<close>.\<close>

definition location_crop :: "'f \<Rightarrow> int \<times> int \<times> int \<times> int \<Rightarrow> 'f image" where
  "location_crop frame = (\<lambda>(top, right, bottom, left). Crop frame top bottom left right)"

text \<open>
  The body of the loop of lines 83-87, on the list \<open>faces\<close> and the state: the image is
  written first, and the path is appended when the write has returned. The locations are
  those \<open>face_recognition\<close> finds in the frame; the colour conversion of line 79 is part
  of that function of the frame.
\<close>

definition realistic_step ::
  "'f env \<Rightarrow> 'f \<Rightarrow> nat \<Rightarrow> nat \<times> (int \<times> int \<times> int \<times> int) \<Rightarrow> string list \<times> 'f fs
     \<Rightarrow> error + string list \<times> 'f fs"
where
  "realistic_step env frame frame_count = (\<lambda>(i, location) (found, st).
     (let face_image = location_crop frame location;
          name = realistic_name frame_count i
      in case imwrite env name face_image (faces st) of
           Inl e \<Rightarrow> Inl e
         | Inr d \<Rightarrow> Inr (found @ [join faces_dir name], st\<lparr>faces := d\<rparr>)))"

definition detect_faces_realistic ::
  "'f env \<Rightarrow> 'f \<Rightarrow> nat \<Rightarrow> 'f fs \<Rightarrow> (error + string list) \<times> 'f fs"
where
  "detect_faces_realistic env frame frame_count st =
     (case face_locations env frame of
        Inl e \<Rightarrow> (Inl e, st)
      | Inr face_locs \<Rightarrow>
          (case for_each (realistic_step env frame frame_count) (enumerate 0 face_locs) ([], st) of
             (None, found, st') \<Rightarrow> (Inr found, st')
           | (Some e, found, st') \<Rightarrow> (Inl e, st')))"

text \<open>Lines 101 and 104: the corners as integers, and \<open>frame[y1:y2, x1:x2]\<close>.\<close>

definition box_crop :: "'f \<Rightarrow> box \<Rightarrow> 'f image" where
  "box_crop frame b =
     (case xyxy b of (x1, y1, x2, y2) \<Rightarrow>
        Crop frame (py_int y1) (py_int y2) (py_int x1) (py_int x2))"

text \<open>The body of the loop of lines 100-107.\<close>

definition anime_step ::
  "'f env \<Rightarrow> 'f \<Rightarrow> nat \<Rightarrow> nat \<times> box \<Rightarrow> string list \<times> 'f fs \<Rightarrow> error + string list \<times> 'f fs"
where
  "anime_step env frame frame_count = (\<lambda>(i, b) (detected_faces, st).
     if conf b \<ge> 0.5
     then (let face_image = box_crop frame b;
               name = anime_name frame_count i
           in case imwrite env name face_image (faces st) of
                Inl e \<Rightarrow> Inl e
              | Inr d \<Rightarrow> Inr (detected_faces @ [join faces_dir name], st\<lparr>faces := d\<rparr>))
     else Inr (detected_faces, st))"

definition detect_faces_anime ::
  "'f env \<Rightarrow> 'f \<Rightarrow> nat \<Rightarrow> 'f fs \<Rightarrow> (error + string list) \<times> 'f fs"
where
  "detect_faces_anime env frame frame_count st =
     (case yolo_model env frame of
        Inl e \<Rightarrow> (Inl e, st)
      | Inr boxes \<Rightarrow>
          (case for_each (anime_step env frame frame_count) (enumerate 0 boxes) ([], st) of
             (None, detected_faces, st') \<Rightarrow> (Inr detected_faces, st')
           | (Some e, detected_faces, st') \<Rightarrow> (Inl e, st')))"

section \<open>process_videos\<close>

text \<open>Lines 152-156: the detector of the mode; any other mode detects nothing.\<close>

definition detect :: "'f env \<Rightarrow> string \<Rightarrow> 'f \<Rightarrow> nat \<Rightarrow> 'f fs \<Rightarrow> error option \<times> 'f fs" where
  "detect env mode frame frame_count st =
     (if mode = ''Realistic''
      then (case detect_faces_realistic env frame frame_count st of
              (Inl e, st') \<Rightarrow> (Some e, st')
            | (Inr _, st') \<Rightarrow> (None, st'))
      else if mode = ''Anime''
      then (case detect_faces_anime env frame frame_count st of
              (Inl e, st') \<Rightarrow> (Some e, st')
            | (Inr _, st') \<Rightarrow> (None, st'))
      else (None, st))"

definition frame_name :: "nat \<Rightarrow> string" where
  "frame_name frame_count = ''frame_'' @ str_nat frame_count @ ''.jpg''"

text \<open>
  The loop of lines 143-159 on an opened capture. An exception of the snapshot write or
  of the detector leaves the loop with the state reached: the script has no handler.
\<close>

fun read_frames ::
  "'f env \<Rightarrow> string \<Rightarrow> 'f read list \<Rightarrow> nat \<Rightarrow> 'f fs \<Rightarrow> error option \<times> 'f fs"
where
  "read_frames env mode [] frame_count st = (None, st)"
| "read_frames env mode (DecodeFail # rest) frame_count st = (None, st)"
| "read_frames env mode (Frame frame # rest) frame_count st =
     (case imwrite env (frame_name frame_count) (Full frame) (screencaps st) of
        Inl e \<Rightarrow> (Some e, st)
      | Inr d \<Rightarrow>
          (case detect env mode frame frame_count (st\<lparr>screencaps := d\<rparr>) of
             (Some e, st2) \<Rightarrow> (Some e, st2)
           | (None, st2) \<Rightarrow> read_frames env mode rest (frame_count + 1) st2))"

definition stream_video ::
  "'f env \<Rightarrow> string \<Rightarrow> 'f capture \<Rightarrow> 'f fs \<Rightarrow> error option \<times> 'f fs"
where
  "stream_video env mode cap st =
     (case cap of
        Unopened \<Rightarrow> (None, st)
      | Opened rs \<Rightarrow> read_frames env mode rs 0 st)"

text \<open>
  Lines 163-170, in the steps the file system sees. \<open>os.makedirs(video_output_dir,
  exist_ok=True)\<close> is the first. \<open>shutil.copytree(src, dst)\<close> is \<open>os.makedirs(dst)\<close>, which
  raises when \<open>dst\<close> exists, and then one copy for each entry of \<open>src\<close> in listing order.
\<close>

datatype 'i step = Makedirs_video | Makedirs_dst string | Copy_entry string string "'i node"

definition makedirs_exist_ok :: "string \<Rightarrow> 'i dir \<Rightarrow> error + 'i dir" where
  "makedirs_exist_ok name d =
     (case map_of d name of
        None \<Rightarrow> Inr (d @ [(name, Dir [])])
      | Some (Dir _) \<Rightarrow> Inr d
      | Some (File _) \<Rightarrow> Inl FileExistsError)"

definition mkdir :: "string \<Rightarrow> 'i dir \<Rightarrow> error + 'i dir" where
  "mkdir name d =
     (case map_of d name of
        None \<Rightarrow> Inr (d @ [(name, Dir [])])
      | Some _ \<Rightarrow> Inl FileExistsError)"

definition in_dir :: "string \<Rightarrow> ('i dir \<Rightarrow> error + 'i dir) \<Rightarrow> 'i dir \<Rightarrow> error + 'i dir" where
  "in_dir name f d =
     (case map_of d name of
        None \<Rightarrow> Inl FileNotFoundError
      | Some (File _) \<Rightarrow> Inl NotADirectoryError
      | Some (Dir c) \<Rightarrow>
          (case f c of
             Inl e \<Rightarrow> Inl e
           | Inr c' \<Rightarrow> Inr (AList.update name (Dir c') d)))"

fun exec_step :: "string \<Rightarrow> 'i step \<Rightarrow> 'i dir \<Rightarrow> error + 'i dir" where
  "exec_step base Makedirs_video out = makedirs_exist_ok base out"
| "exec_step base (Makedirs_dst dir_name) out = in_dir base (mkdir dir_name) out"
| "exec_step base (Copy_entry dir_name name x) out =
     in_dir base (in_dir dir_name (\<lambda>c. Inr (AList.update name x c))) out"

fun run_steps :: "string \<Rightarrow> 'i step list \<Rightarrow> 'i dir \<Rightarrow> error option \<times> 'i dir" where
  "run_steps base [] out = (None, out)"
| "run_steps base (s # ss) out =
     (case exec_step base s out of
        Inl e \<Rightarrow> (Some e, out)
      | Inr out' \<Rightarrow> run_steps base ss out')"

definition copytree_steps :: "string \<Rightarrow> 'i dir \<Rightarrow> 'i step list" where
  "copytree_steps dir_name src = Makedirs_dst dir_name # map (\<lambda>(name, x). Copy_entry dir_name name x) src"

definition promote_steps :: "'f fs \<Rightarrow> 'f image step list" where
  "promote_steps st =
     Makedirs_video # copytree_steps ''screencaps'' (screencaps st) @ copytree_steps ''faces'' (faces st)"

definition promote :: "string \<Rightarrow> 'f fs \<Rightarrow> error option \<times> 'f fs" where
  "promote video_file st =
     (let base = fst (splitext video_file)
      in case run_steps base (promote_steps st) (outputs st) of
           (Some e, out) \<Rightarrow> (Some e, st\<lparr>outputs := out\<rparr>)
         | (None, out) \<Rightarrow>
             (None, print (''Processing completed: Results saved in '' @ join output_dir base)
                      (st\<lparr>outputs := out\<rparr>)))"

text \<open>The state left behind when the process is stopped after \<open>k\<close> steps of the promotion.\<close>

definition promote_interrupted :: "nat \<Rightarrow> string \<Rightarrow> 'f fs \<Rightarrow> 'f fs" where
  "promote_interrupted k video_file st =
     st\<lparr>outputs := snd (run_steps (fst (splitext video_file)) (take k (promote_steps st)) (outputs st))\<rparr>"

text \<open>The body of the loop over the videos, lines 128-172.\<close>

definition process_video :: "'f env \<Rightarrow> string \<Rightarrow> string \<Rightarrow> 'f fs \<Rightarrow> error option \<times> 'f fs" where
  "process_video env mode video_file st =
     (let video_path = join input_dir video_file;
          st0 = print (CHR 0x0A # ''Processing video: '' @ video_file) st
      in case reset st0 of
           (Some e, st1) \<Rightarrow> (Some e, st1)
         | (None, st1) \<Rightarrow>
             (case stream_video env mode (video_capture env video_path) st1 of
                (Some e, st2) \<Rightarrow> (Some e, st2)
              | (None, st2) \<Rightarrow> promote video_file st2))"

fun run_videos :: "'f env \<Rightarrow> string \<Rightarrow> string list \<Rightarrow> 'f fs \<Rightarrow> error option \<times> 'f fs" where
  "run_videos env mode [] st = (None, st)"
| "run_videos env mode (video_file # rest) st =
     (case process_video env mode video_file st of
        (Some e, st') \<Rightarrow> (Some e, st')
      | (None, st') \<Rightarrow> run_videos env mode rest st')"

definition process_videos :: "'f env \<Rightarrow> string \<Rightarrow> 'f fs \<Rightarrow> error option \<times> 'f fs" where
  "process_videos env mode st =
     (let video_files = filter (is_video env) (listdir_input env)
      in if video_files = []
         then (None, print ''No videos found in the input directory.'' st)
         else run_videos env mode video_files st)"

section \<open>What the claims speak of\<close>

text \<open>
  The frames of a capture that are decoded: those before the first read that fails, none
  for a capture that was not opened.
\<close>

fun decoded_frames :: "'f read list \<Rightarrow> 'f list" where
  "decoded_frames [] = []"
| "decoded_frames (DecodeFail # rest) = []"
| "decoded_frames (Frame f # rest) = f # decoded_frames rest"

definition decoded :: "'f capture \<Rightarrow> 'f list" where
  "decoded cap = (case cap of Unopened \<Rightarrow> [] | Opened rs \<Rightarrow> decoded_frames rs)"

text \<open>
  The snapshot file of frame \<open>i\<close>; the region file of candidate \<open>i\<close> of a frame, for
  either detector; the candidates the bounding-box detector accepts, each with its index
  among all candidates.
\<close>

definition snapshot :: "nat \<times> 'f \<Rightarrow> string \<times> 'f image node" where
  "snapshot = (\<lambda>(i, f). (frame_name i, File (Full f)))"

definition anime_region :: "'f \<Rightarrow> nat \<Rightarrow> nat \<times> box \<Rightarrow> string \<times> 'f image node" where
  "anime_region frame frame_count = (\<lambda>(i, b). (anime_name frame_count i, File (box_crop frame b)))"

definition realistic_region ::
  "'f \<Rightarrow> nat \<Rightarrow> nat \<times> (int \<times> int \<times> int \<times> int) \<Rightarrow> string \<times> 'f image node" where
  "realistic_region frame frame_count =
     (\<lambda>(i, location). (realistic_name frame_count i, File (location_crop frame location)))"

definition accepted :: "box list \<Rightarrow> (nat \<times> box) list" where
  "accepted boxes = filter (\<lambda>(i, b). conf b \<ge> 0.5) (enumerate 0 boxes)"

text \<open>
  The candidates, and the locations, whose regions a detector writes: those it accepts,
  in order, before the first whose slice of the frame is empty, where cv2.imwrite raises.
\<close>

definition written_boxes :: "'f env \<Rightarrow> 'f \<Rightarrow> box list \<Rightarrow> (nat \<times> box) list" where
  "written_boxes env frame boxes =
     takeWhile (\<lambda>(i, b). \<not> empty_image (frame_shape env) (box_crop frame b)) (accepted boxes)"

definition written_locations ::
  "'f env \<Rightarrow> 'f \<Rightarrow> (int \<times> int \<times> int \<times> int) list \<Rightarrow> (nat \<times> (int \<times> int \<times> int \<times> int)) list" where
  "written_locations env frame locs =
     takeWhile (\<lambda>(i, l). \<not> empty_image (frame_shape env) (location_crop frame l)) (enumerate 0 locs)"

text \<open>The region files of frame \<open>n\<close> of a video, for the bounding-box detector.\<close>

definition anime_regions :: "'f env \<Rightarrow> nat \<times> 'f \<Rightarrow> 'f image dir" where
  "anime_regions env = (\<lambda>(n, frame).
     (case yolo_model env frame of
        Inl e \<Rightarrow> []
      | Inr boxes \<Rightarrow> map (anime_region frame n) (accepted boxes)))"

section \<open>Concrete inputs\<close>

text \<open>
  \<open>str.lower\<close> on names of ASCII characters, which are the names of the concrete inputs.
\<close>

definition ascii_lower_char :: "char \<Rightarrow> char" where
  "ascii_lower_char c =
     (case map_of (zip ''ABCDEFGHIJKLMNOPQRSTUVWXYZ'' ''abcdefghijklmnopqrstuvwxyz'') c of
        None \<Rightarrow> c
      | Some d \<Rightarrow> d)"

definition ascii_lower :: "string \<Rightarrow> string" where
  "ascii_lower s = map ascii_lower_char s"

text \<open>
  A file system that lists a new name after the names present, and one that lists it
  before them.
\<close>

definition lists_last :: "string \<Rightarrow> string list \<Rightarrow> nat" where
  "lists_last name names = length names"

definition lists_first :: "string \<Rightarrow> string list \<Rightarrow> nat" where
  "lists_first name names = 0"

text \<open>Frames are numbered here; a state with two snapshots and one region in the workspace.\<close>

definition used_workspace :: "nat fs" where
  "used_workspace =
     \<lparr>screencaps = [(''frame_0.jpg'', File (Full 7)), (''frame_1.jpg'', File (Full 8))],
      faces = [(''anime_face_1_0.jpg'', File (Crop 8 0 4 0 4))],
      outputs = [],
      printed = []\<rparr>"

definition empty_state :: "nat fs" where
  "empty_state = \<lparr>screencaps = [], faces = [], outputs = [], printed = []\<rparr>"

text \<open>An input directory without a video; all frames are of 8 rows and 8 columns.\<close>

definition no_video_env :: "nat env" where
  "no_video_env =
     \<lparr>find_spec = (\<lambda>m. True),
      str_lower = ascii_lower,
      listdir_input = [''notes.txt'', ''clip.mp3'', ''mp4''],
      listdir_place = lists_last,
      video_capture = (\<lambda>p. Unopened),
      frame_shape = (\<lambda>f. (8, 8)),
      face_locations = (\<lambda>f. Inr []),
      yolo_model = (\<lambda>f. Inr [])\<rparr>"

text \<open>Two videos of one frame each, between them a file that is no video.\<close>

definition two_video_env :: "nat env" where
  "two_video_env =
     \<lparr>find_spec = (\<lambda>m. True),
      str_lower = ascii_lower,
      listdir_input = [''a.mp4'', ''readme.txt'', ''b.mp4''],
      listdir_place = lists_last,
      video_capture = (\<lambda>p. if p = ''/ScreenCap/input/a.mp4'' then Opened [Frame 10]
                             else if p = ''/ScreenCap/input/b.mp4'' then Opened [Frame 20]
                             else Unopened),
      frame_shape = (\<lambda>f. (8, 8)),
      face_locations = (\<lambda>f. Inr []),
      yolo_model = (\<lambda>f. Inr [])\<rparr>"

text \<open>A three-frame video on whose frame 1 the YOLO model raises, and a second video.\<close>

definition raising_env :: "nat env" where
  "raising_env =
     \<lparr>find_spec = (\<lambda>m. True),
      str_lower = ascii_lower,
      listdir_input = [''a.mp4'', ''b.mp4''],
      listdir_place = lists_last,
      video_capture = (\<lambda>p. if p = ''/ScreenCap/input/a.mp4''
                             then Opened [Frame 10, Frame 11, Frame 12]
                             else Opened [Frame 20]),
      frame_shape = (\<lambda>f. (8, 8)),
      face_locations = (\<lambda>f. Inr []),
      yolo_model = (\<lambda>f. if f = 11 then Inl (External ''malformed frame'') else Inr [])\<rparr>"

text \<open>A workspace holding a subdirectory; an output directory left by an earlier run.\<close>

definition subdir_state :: "nat fs" where
  "subdir_state = \<lparr>screencaps = [(''old'', Dir [])], faces = [], outputs = [], printed = []\<rparr>"

definition stale_output_state :: "nat fs" where
  "stale_output_state =
     \<lparr>screencaps = [], faces = [],
      outputs = [(''a'', Dir [(''screencaps'', Dir [])])],
      printed = []\<rparr>"

text \<open>
  One video: three frames, then a frame that cannot be decoded. On frame 1 the YOLO model
  gives three candidates of confidence 0.9, 0.3 and 0.5, and face_recognition two faces.
\<close>

definition scenario_env :: "nat env" where
  "scenario_env =
     \<lparr>find_spec = (\<lambda>m. True),
      str_lower = ascii_lower,
      listdir_input = [''clip.mp4''],
      listdir_place = lists_last,
      video_capture = (\<lambda>p. if p = ''/ScreenCap/input/clip.mp4''
                             then Opened [Frame 10, Frame 11, Frame 12, DecodeFail, Frame 13]
                             else Unopened),
      frame_shape = (\<lambda>f. (8, 8)),
      face_locations = (\<lambda>f. if f = 11 then Inr [(0, 4, 4, 0), (2, 6, 6, 2)] else Inr []),
      yolo_model = (\<lambda>f. if f = 11
                          then Inr [\<lparr>xyxy = (0, 0, 4, 4), conf = 0.9\<rparr>,
                                    \<lparr>xyxy = (4, 0, 8, 4), conf = 0.3\<rparr>,
                                    \<lparr>xyxy = (2, 2, 6, 6), conf = 0.5\<rparr>]
                          else Inr [])\<rparr>"

text \<open>
  One video of three frames. On frame 1 the YOLO model gives a candidate of confidence
  0.8, one of confidence 0.9 whose corners 4.2 and 4.9 become the same column, and one of
  confidence 0.7; face_recognition gives a face and a location without a row.
\<close>

definition thin_box_env :: "nat env" where
  "thin_box_env =
     \<lparr>find_spec = (\<lambda>m. True),
      str_lower = ascii_lower,
      listdir_input = [''clip.mp4''],
      listdir_place = lists_last,
      video_capture = (\<lambda>p. if p = ''/ScreenCap/input/clip.mp4''
                             then Opened [Frame 10, Frame 11, Frame 12]
                             else Unopened),
      frame_shape = (\<lambda>f. (8, 8)),
      face_locations = (\<lambda>f. if f = 11 then Inr [(0, 4, 4, 0), (4, 4, 4, 0), (2, 6, 6, 2)]
                              else Inr []),
      yolo_model = (\<lambda>f. if f = 11
                          then Inr [\<lparr>xyxy = (0, 0, 4, 4), conf = 0.8\<rparr>,
                                    \<lparr>xyxy = (4.2, 0, 4.9, 4), conf = 0.9\<rparr>,
                                    \<lparr>xyxy = (2, 2, 6, 6), conf = 0.7\<rparr>]
                          else Inr [])\<rparr>"

section \<open>Evaluation\<close>

lemma str_nat_digits [simp]:
  "str_nat 0 = ''0''" "str_nat (Suc 0) = ''1''" "str_nat 1 = ''1''" "str_nat 2 = ''2''"
  "str_nat 3 = ''3''" "str_nat 5 = ''5''" "str_nat (Suc (Suc 0)) = ''2''"
  by (simp_all add: str_nat.simps digit_char_def)

lemma splitext_examples:
  "splitext ''a.mp4'' = (''a'', ''.mp4'')"
  "splitext ''b.mp4'' = (''b'', ''.mp4'')"
  "splitext ''a.avi'' = (''a'', ''.avi'')"
  "splitext ''clip.mp4'' = (''clip'', ''.mp4'')"
  by (simp_all add: splitext_def rfind_def upt_rec)

lemmas listing_simps = is_video_def endswith_def ascii_lower_def ascii_lower_char_def

lemmas path_simps = join_def input_dir_def top_working_dir_def output_dir_def work_dir_def
  faces_dir_def

lemmas write_simps = imwrite_def empty_image_def slice_len_def slice_bound_def insert_at_def
  lists_last_def lists_first_def

lemmas detector_simps = detect_def detect_faces_anime_def detect_faces_realistic_def
  anime_step_def realistic_step_def box_crop_def location_crop_def py_int_def
  anime_name_def realistic_name_def enumerate_eq_zip Let_def

lemmas stream_simps = stream_video_def frame_name_def write_simps detector_simps

lemmas promote_simps = promote_def Let_def splitext_examples promote_steps_def copytree_steps_def
  makedirs_exist_ok_def in_dir_def mkdir_def

lemmas video_simps = process_videos_def process_video_def print_def reset_def

section \<open>Workspace reset\<close>

lemma unlink_all_idem: "unlink_all (snd (unlink_all d)) = unlink_all d"
  by (induction d rule: unlink_all.induct) simp_all

lemma unlink_all_fixed: "unlink_all d = (r, d') \<Longrightarrow> unlink_all d' = (r, d')"
  using unlink_all_idem [of d] by simp

lemma unlink_all_None: "fst (unlink_all d) = None \<Longrightarrow> snd (unlink_all d) = []"
  by (induction d rule: unlink_all.induct) simp_all

lemma unlink_all_succeeds:
  "(fst (unlink_all d) = None) = (\<forall>x \<in> snd ` set d. \<exists>img. x = File img)"
  by (induction d rule: unlink_all.induct) auto

lemma reset_twice: "reset (snd (reset st)) = reset st"
proof (cases "unlink_all (screencaps st)")
  case (Pair r d)
  note i1 = unlink_all_fixed [OF Pair]
  show ?thesis
  proof (cases r)
    case (Some e)
    then show ?thesis using Pair i1 by (simp add: reset_def)
  next
    case None
    obtain r' d' where p2: "unlink_all (faces st) = (r', d')"
      by (cases "unlink_all (faces st)")
    note i2 = unlink_all_fixed [OF p2]
    show ?thesis using Pair None p2 i1 i2 by (simp add: reset_def)
  qed
qed

lemma reset_ok_empty:
  "fst (reset st) = None \<Longrightarrow> screencaps (snd (reset st)) = [] \<and> faces (snd (reset st)) = []"
  using unlink_all_None [of "screencaps st"] unlink_all_None [of "faces st"]
  by (auto simp: reset_def split: prod.splits option.splits)

lemma reset_succeeds:
  "(fst (reset st) = None) =
     (\<forall>x \<in> snd ` set (screencaps st) \<union> snd ` set (faces st). \<exists>img. x = File img)"
proof -
  have "(fst (reset st) = None) = (fst (unlink_all (screencaps st)) = None \<and> fst (unlink_all (faces st)) = None)"
    by (auto simp: reset_def split: prod.splits option.splits)
  then show ?thesis
    by (simp add: unlink_all_succeeds ball_Un)
qed

text \<open>
  C8, as the claim states it, fails: a snapshot container that holds a subdirectory is
  not emptied by the reset, which raises at the subdirectory and leaves it in place.
\<close>

theorem reset_leaves_subdirectory_counterexample:
  "reset subdir_state = (Some IsADirectoryError, subdir_state)
   \<and> screencaps (snd (reset subdir_state)) = [(''old'', Dir [])]"
  by (simp add: reset_def subdir_state_def)

text \<open>
  C8, amended. Workspace reset is idempotent: in every state, resetting twice in a row
  gives the result and the workspace of resetting once. The reset succeeds exactly when
  neither container holds a subdirectory, and then it leaves both containers empty; in
  particular on an empty workspace it succeeds and leaves both containers empty.
\<close>

theorem reset_idempotent:
  "reset (snd (reset st)) = reset st
   \<and> reset (st\<lparr>screencaps := [], faces := []\<rparr>) = (None, st\<lparr>screencaps := [], faces := []\<rparr>)
   \<and> (fst (reset st) = None \<longrightarrow> screencaps (snd (reset st)) = [] \<and> faces (snd (reset st)) = [])
   \<and> ((fst (reset st) = None) =
        (\<forall>x \<in> snd ` set (screencaps st) \<union> snd ` set (faces st). \<exists>img. x = File img))"
  using reset_twice [of st] reset_ok_empty [of st] reset_succeeds [of st]
  by (simp add: reset_def)

theorem reset_idempotent_witness:
  "fst (reset used_workspace) = None
   \<and> screencaps (snd (reset used_workspace)) = []
   \<and> faces (snd (reset used_workspace)) = []
   \<and> reset (snd (reset used_workspace)) = reset used_workspace"
  using reset_idempotent [of used_workspace] by (simp add: reset_def used_workspace_def)

section \<open>No video in the input directory\<close>

text \<open>
  C10. If no name in the input directory ends, case-insensitively, in .mp4, .avi or .mkv,
  which is the test of line 121 on the lower-cased name, then process_videos returns
  after printing that no videos were found: the two workspace containers and the output
  hierarchy are unchanged.
\<close>

theorem no_videos_found:
  assumes "\<forall>f \<in> set (listdir_input env). \<not> is_video env f"
  shows "process_videos env mode st =
           (None, st\<lparr>printed := printed st @ [''No videos found in the input directory.'']\<rparr>)"
  using assms by (simp add: process_videos_def print_def filter_empty_conv)

theorem no_videos_found_witness:
  "listdir_input no_video_env = [''notes.txt'', ''clip.mp3'', ''mp4'']
   \<and> \<not> is_video no_video_env ''notes.txt''
   \<and> \<not> is_video no_video_env ''clip.mp3''
   \<and> \<not> is_video no_video_env ''mp4''
   \<and> process_videos no_video_env ''Anime'' used_workspace =
       (None, used_workspace\<lparr>printed := [''No videos found in the input directory.'']\<rparr>)"
proof -
  have h: "\<forall>f \<in> set (listdir_input no_video_env). \<not> is_video no_video_env f"
    by (simp add: no_video_env_def listing_simps)
  have "printed used_workspace = []"
    by (simp add: used_workspace_def)
  with h no_videos_found [OF h, of "''Anime''" used_workspace] show ?thesis
    by (simp add: no_video_env_def)
qed

section \<open>What the detectors and the loop leave alone\<close>

lemma for_each_invariant:
  assumes "\<And>x s s'. body x s = Inr s' \<Longrightarrow> P s \<Longrightarrow> P s'"
      and "P s" and "for_each body xs s = (r, s')"
  shows "P s'"
  using assms(2,3)
proof (induction xs arbitrary: s)
  case Nil
  then show ?case by simp
next
  case (Cons x xs)
  show ?case
  proof (cases "body x s")
    case (Inl e)
    with Cons.prems show ?thesis by simp
  next
    case (Inr s1)
    with Cons.prems have "for_each body xs s1 = (r, s')" by simp
    from Cons.IH [OF assms(1) [OF Inr Cons.prems(1)] this] show ?thesis .
  qed
qed

lemma anime_step_frame:
  "anime_step env f n x (acc, st) = Inr (acc', st') \<Longrightarrow>
   outputs st' = outputs st \<and> screencaps st' = screencaps st \<and> printed st' = printed st"
  by (auto simp: anime_step_def Let_def split: prod.splits if_splits sum.splits)

lemma realistic_step_frame:
  "realistic_step env f n x (acc, st) = Inr (acc', st') \<Longrightarrow>
   outputs st' = outputs st \<and> screencaps st' = screencaps st \<and> printed st' = printed st"
  by (auto simp: realistic_step_def Let_def split: prod.splits sum.splits)

lemma anime_loop_frame:
  assumes "for_each (anime_step env f n) xs (acc, st) = (r, acc', st')"
  shows "outputs st' = outputs st \<and> screencaps st' = screencaps st \<and> printed st' = printed st"
proof -
  let ?P = "\<lambda>s. outputs (snd s) = outputs st \<and> screencaps (snd s) = screencaps st
                \<and> printed (snd s) = printed st"
  have "?P (acc', st')"
  proof (rule for_each_invariant [where P = ?P and body = "anime_step env f n", OF _ _ assms])
    show "?P (acc, st)" by simp
  next
    fix x s s' assume "anime_step env f n x s = Inr s'" "?P s"
    with anime_step_frame [of env f n x "fst s" "snd s" "fst s'" "snd s'"] show "?P s'"
      by simp
  qed
  then show ?thesis by simp
qed

lemma realistic_loop_frame:
  assumes "for_each (realistic_step env f n) xs (acc, st) = (r, acc', st')"
  shows "outputs st' = outputs st \<and> screencaps st' = screencaps st \<and> printed st' = printed st"
proof -
  let ?P = "\<lambda>s. outputs (snd s) = outputs st \<and> screencaps (snd s) = screencaps st
                \<and> printed (snd s) = printed st"
  have "?P (acc', st')"
  proof (rule for_each_invariant [where P = ?P and body = "realistic_step env f n", OF _ _ assms])
    show "?P (acc, st)" by simp
  next
    fix x s s' assume "realistic_step env f n x s = Inr s'" "?P s"
    with realistic_step_frame [of env f n x "fst s" "snd s" "fst s'" "snd s'"] show "?P s'"
      by simp
  qed
  then show ?thesis by simp
qed

lemma detect_frame:
  "detect env mode f n st = (r, st') \<Longrightarrow>
   outputs st' = outputs st \<and> screencaps st' = screencaps st \<and> printed st' = printed st"
  by (auto simp: detect_def detect_faces_anime_def detect_faces_realistic_def
      split: if_splits sum.splits prod.splits option.splits
      dest: anime_loop_frame realistic_loop_frame)

lemma read_frames_frame:
  "read_frames env mode rs n st = (r, st') \<Longrightarrow>
   outputs st' = outputs st \<and> printed st' = printed st"
proof (induction rs arbitrary: n st)
  case Nil
  then show ?case by simp
next
  case (Cons x rs)
  show ?case
  proof (cases x)
    case DecodeFail
    with Cons.prems show ?thesis by simp
  next
    case (Frame f)
    show ?thesis
    proof (cases "imwrite env (frame_name n) (Full f) (screencaps st)")
      case (Inl e)
      with Cons.prems Frame show ?thesis by simp
    next
      case (Inr d)
      let ?st1 = "st\<lparr>screencaps := d\<rparr>"
      obtain r2 st2 where d: "detect env mode f n ?st1 = (r2, st2)"
        by (cases "detect env mode f n ?st1")
      from detect_frame [OF d] have k: "outputs st2 = outputs st \<and> printed st2 = printed st"
        by simp
      show ?thesis
      proof (cases r2)
        case None
        with Cons.prems Frame Inr d have "read_frames env mode rs (n + 1) st2 = (r, st')"
          by simp
        from Cons.IH [OF this] k show ?thesis by simp
      next
        case (Some e)
        with Cons.prems Frame Inr d k show ?thesis by auto
      qed
    qed
  qed
qed

lemma reset_frame:
  "reset st = (r, st') \<Longrightarrow> outputs st' = outputs st \<and> printed st' = printed st"
  by (auto simp: reset_def split: prod.splits option.splits)

section \<open>The frame loop\<close>

lemma imwrite_video_capture [simp]:
  "imwrite (env\<lparr>video_capture := c\<rparr>) name img d = imwrite env name img d"
  by (simp add: imwrite_def split: option.splits node.splits)

lemma anime_step_video_capture [simp]:
  "anime_step (env\<lparr>video_capture := c\<rparr>) = anime_step env"
  by (intro ext) (simp add: anime_step_def Let_def split: prod.splits)

lemma realistic_step_video_capture [simp]:
  "realistic_step (env\<lparr>video_capture := c\<rparr>) = realistic_step env"
  by (intro ext) (simp add: realistic_step_def Let_def split: prod.splits)

lemma detect_video_capture [simp]:
  "detect (env\<lparr>video_capture := c\<rparr>) mode frame n st = detect env mode frame n st"
  by (simp add: detect_def detect_faces_realistic_def detect_faces_anime_def split: sum.splits)

lemma read_frames_video_capture [simp]:
  "read_frames (env\<lparr>video_capture := c\<rparr>) mode rs n st = read_frames env mode rs n st"
proof (induction rs arbitrary: n st)
  case Nil
  then show ?case by simp
next
  case (Cons r rs)
  then show ?case by (cases r) (simp_all split: prod.splits option.splits sum.splits)
qed

lemma read_frames_DecodeFail:
  "read_frames env mode (pre @ DecodeFail # rest) n st = read_frames env mode pre n st"
proof (induction pre arbitrary: n st)
  case Nil
  then show ?case by simp
next
  case (Cons r pre)
  then show ?case by (cases r) (simp_all split: prod.splits option.splits sum.splits)
qed

text \<open>
  C6. A frame that cannot be decoded ends the frame sequence of its video as exhaustion
  does: the frame loop, and the processing of the whole video, give the result and the
  state they give on the video cut before that frame, so what was written for the earlier
  frames is kept and no error arises from the failure.
\<close>

theorem decode_failure_is_exhaustion:
  "read_frames env mode (pre @ DecodeFail # rest) n st = read_frames env mode pre n st
   \<and> stream_video env mode (Opened (pre @ DecodeFail # rest)) st
       = stream_video env mode (Opened pre) st
   \<and> process_video (env\<lparr>video_capture := (\<lambda>p. Opened (pre @ DecodeFail # rest))\<rparr>) mode v st
       = process_video (env\<lparr>video_capture := (\<lambda>p. Opened pre)\<rparr>) mode v st"
  by (simp add: read_frames_DecodeFail stream_video_def process_video_def
        split: prod.splits option.splits)

section \<open>A detector that raises\<close>

lemma read_frames_append:
  "read_frames env mode (map Frame pre) n st = (None, st1) \<Longrightarrow>
   read_frames env mode (map Frame pre @ rs) n st = read_frames env mode rs (n + length pre) st1"
proof (induction pre arbitrary: n st)
  case Nil
  then show ?case by simp
next
  case (Cons f pre)
  then show ?case by (auto split: prod.splits option.splits sum.splits)
qed

lemma detect_model_raises:
  assumes "mode = ''Anime'' \<and> yolo_model env f = Inl e
         \<or> mode = ''Realistic'' \<and> face_locations env f = Inl e"
  shows "detect env mode f k st = (Some e, st)"
  using assms by (auto simp: detect_def detect_faces_anime_def detect_faces_realistic_def)

text \<open>
  C4, as the claim states it, fails: on a three-frame video whose frame 1 makes the
  detector raise, the run ends with that error, two snapshots are written and not three,
  frame 2 is never read and the video is not promoted.
\<close>

theorem detector_error_counterexample:
  "process_videos raising_env ''Anime'' empty_state =
     (Some (External ''malformed frame''),
      \<lparr>screencaps = [(''frame_0.jpg'', File (Full 10)), (''frame_1.jpg'', File (Full 11))],
       faces = [],
       outputs = [],
       printed = [CHR 0x0A # ''Processing video: a.mp4'']\<rparr>)"
  by (simp add: raising_env_def empty_state_def video_simps listing_simps path_simps
      stream_simps)

text \<open>
  C4, amended. If the detector raises on a frame, the error is not handled: the frames
  before it are processed as usual, the snapshot of the failing frame is written, and
  the error leaves the frame loop, the video and the batch at once, in the state the
  detector had reached when it raised. What the detector wrote for that frame before
  raising stays; that is nothing when the model call itself raises. No frame after it is
  read and nothing is promoted, so the output hierarchy is as it was.
\<close>

theorem detector_error_aborts_video:
  assumes cap: "video_capture env (join input_dir v) = Opened (map Frame pre @ Frame f # rest)"
      and res: "reset (print (CHR 0x0A # ''Processing video: '' @ v) st) = (None, st0)"
      and before: "read_frames env mode (map Frame pre) 0 st0 = (None, st1)"
      and snap: "imwrite env (frame_name (length pre)) (Full f) (screencaps st1) = Inr d"
      and raises: "detect env mode f (length pre) (st1\<lparr>screencaps := d\<rparr>) = (Some e, st2)"
  shows "read_frames env mode (map Frame pre @ Frame f # rest) 0 st0 = (Some e, st2)
         \<and> process_video env mode v st = (Some e, st2)
         \<and> run_videos env mode (v # vs) st = (Some e, st2)
         \<and> outputs st2 = outputs st
         \<and> screencaps st2 = d
         \<and> (mode = ''Anime'' \<and> yolo_model env f = Inl e'
              \<or> mode = ''Realistic'' \<and> face_locations env f = Inl e'
            \<longrightarrow> e = e' \<and> st2 = st1\<lparr>screencaps := d\<rparr>)"
proof -
  have a: "read_frames env mode (map Frame pre @ Frame f # rest) 0 st0 = (Some e, st2)"
    using read_frames_append [OF before, of "Frame f # rest"] snap raises
    by simp
  have b: "process_video env mode v st = (Some e, st2)"
    using a cap res by (simp add: process_video_def stream_video_def)
  have c: "run_videos env mode (v # vs) st = (Some e, st2)"
    using b by simp
  have d: "outputs st2 = outputs st" "screencaps st2 = d"
    using read_frames_frame [OF before] reset_frame [OF res] detect_frame [OF raises]
    by (simp_all add: print_def)
  have m: "e = e' \<and> st2 = st1\<lparr>screencaps := d\<rparr>"
    if "mode = ''Anime'' \<and> yolo_model env f = Inl e'
         \<or> mode = ''Realistic'' \<and> face_locations env f = Inl e'"
    using detect_model_raises [OF that, of "length pre" "st1\<lparr>screencaps := d\<rparr>"] raises
    by simp
  from a b c d m show ?thesis by blast
qed

theorem detector_error_aborts_video_witness:
  "video_capture thin_box_env (join input_dir ''clip.mp4'')
       = Opened (map Frame [10] @ Frame 11 # [Frame 12])
   \<and> yolo_model thin_box_env 11 =
       Inr [\<lparr>xyxy = (0, 0, 4, 4), conf = 0.8\<rparr>, \<lparr>xyxy = (4.2, 0, 4.9, 4), conf = 0.9\<rparr>,
            \<lparr>xyxy = (2, 2, 6, 6), conf = 0.7\<rparr>]
   \<and> run_videos thin_box_env ''Anime'' [''clip.mp4''] empty_state =
       (Some Cv2Error,
        \<lparr>screencaps = [(''frame_0.jpg'', File (Full 10)), (''frame_1.jpg'', File (Full 11))],
         faces = [(''anime_face_1_0.jpg'', File (Crop 11 0 4 0 4))],
         outputs = [],
         printed = [CHR 0x0A # ''Processing video: clip.mp4'']\<rparr>)
   \<and> yolo_model raising_env 11 = Inl (External ''malformed frame'')
   \<and> run_videos raising_env ''Anime'' [''a.mp4'', ''b.mp4''] empty_state =
       (Some (External ''malformed frame''),
        \<lparr>screencaps = [(''frame_0.jpg'', File (Full 10)), (''frame_1.jpg'', File (Full 11))],
         faces = [],
         outputs = [],
         printed = [CHR 0x0A # ''Processing video: a.mp4'']\<rparr>)"
proof -
  let ?d = "[(''frame_0.jpg'', File (Full (10::nat))), (''frame_1.jpg'', File (Full 11))]"
  let ?s0 = "empty_state\<lparr>printed := [CHR 0x0A # ''Processing video: clip.mp4'']\<rparr>"
  let ?s1 = "?s0\<lparr>screencaps := [(''frame_0.jpg'', File (Full 10))]\<rparr>"
  let ?s2 = "\<lparr>screencaps = ?d,
              faces = [(''anime_face_1_0.jpg'', File (Crop 11 0 4 0 4))],
              outputs = [],
              printed = [CHR 0x0A # ''Processing video: clip.mp4'']\<rparr>"
  have y: "yolo_model thin_box_env 11 =
       Inr [\<lparr>xyxy = (0, 0, 4, 4), conf = 0.8\<rparr>, \<lparr>xyxy = (4.2, 0, 4.9, 4), conf = 0.9\<rparr>,
            \<lparr>xyxy = (2, 2, 6, 6), conf = 0.7\<rparr>]"
    by (simp add: thin_box_env_def)
  have h1: "video_capture thin_box_env (join input_dir ''clip.mp4'')
              = Opened (map Frame [10] @ Frame 11 # [Frame 12])"
    by (simp add: thin_box_env_def path_simps)
  have h2: "reset (print (CHR 0x0A # ''Processing video: '' @ ''clip.mp4'') empty_state) = (None, ?s0)"
    by (simp add: reset_def print_def empty_state_def)
  have h3: "read_frames thin_box_env ''Anime'' (map Frame [10]) 0 ?s0 = (None, ?s1)"
    by (simp add: thin_box_env_def empty_state_def stream_simps)
  have h4: "imwrite thin_box_env (frame_name (length [10::nat])) (Full 11) (screencaps ?s1) = Inr ?d"
    by (simp add: thin_box_env_def empty_state_def frame_name_def write_simps)
  have h5: "detect thin_box_env ''Anime'' 11 (length [10::nat]) (?s1\<lparr>screencaps := ?d\<rparr>)
              = (Some Cv2Error, ?s2)"
    by (simp add: thin_box_env_def empty_state_def write_simps detector_simps)
  from detector_error_aborts_video [OF h1 h2 h3 h4 h5]
  have a: "run_videos thin_box_env ''Anime'' [''clip.mp4''] empty_state = (Some Cv2Error, ?s2)"
    by blast
  let ?t0 = "empty_state\<lparr>printed := [CHR 0x0A # ''Processing video: a.mp4'']\<rparr>"
  let ?t1 = "?t0\<lparr>screencaps := [(''frame_0.jpg'', File (Full 10))]\<rparr>"
  have r: "yolo_model raising_env 11 = Inl (External ''malformed frame'')"
    by (simp add: raising_env_def)
  have g1: "video_capture raising_env (join input_dir ''a.mp4'')
              = Opened (map Frame [10] @ Frame 11 # [Frame 12])"
    by (simp add: raising_env_def path_simps)
  have g2: "reset (print (CHR 0x0A # ''Processing video: '' @ ''a.mp4'') empty_state) = (None, ?t0)"
    by (simp add: reset_def print_def empty_state_def)
  have g3: "read_frames raising_env ''Anime'' (map Frame [10]) 0 ?t0 = (None, ?t1)"
    by (simp add: raising_env_def empty_state_def stream_simps)
  have g4: "imwrite raising_env (frame_name (length [10::nat])) (Full 11) (screencaps ?t1) = Inr ?d"
    by (simp add: raising_env_def empty_state_def frame_name_def write_simps)
  have g5: "detect raising_env ''Anime'' 11 (length [10::nat]) (?t1\<lparr>screencaps := ?d\<rparr>)
              = (Some (External ''malformed frame''), ?t1\<lparr>screencaps := ?d\<rparr>)"
    by (simp add: raising_env_def detect_def detect_faces_anime_def)
  from detector_error_aborts_video [OF g1 g2 g3 g4 g5, of "[''b.mp4'']"]
  have b: "run_videos raising_env ''Anime'' [''a.mp4'', ''b.mp4''] empty_state
             = (Some (External ''malformed frame''), ?t1\<lparr>screencaps := ?d\<rparr>)"
    by blast
  from a b y r h1 show ?thesis
    by (simp add: empty_state_def)
qed

section \<open>Errors and the batch\<close>

lemma run_videos_append:
  "run_videos env mode finished st = (None, st1) \<Longrightarrow>
   run_videos env mode (finished @ rest) st = run_videos env mode rest st1"
  by (induction finished arbitrary: st) (auto split: prod.splits option.splits)

lemma check_dependencies_missing:
  "\<exists>(m, p) \<in> set dependencies. \<not> find_spec env m \<Longrightarrow> snd (check_dependencies env) = Some 1"
  by (auto simp: check_dependencies_def Let_def filter_empty_conv)

text \<open>
  C5, as the claim states it, fails. With a subdirectory in the snapshot container the
  reset of the first video raises, and with an output directory of the first video left by
  an earlier run its promotion raises; either error ends process_videos, and the second
  video is never started.
\<close>

theorem error_isolation_counterexample:
  "process_videos two_video_env ''Anime'' subdir_state =
     (Some IsADirectoryError, subdir_state\<lparr>printed := [CHR 0x0A # ''Processing video: a.mp4'']\<rparr>)
   \<and> process_videos two_video_env ''Anime'' stale_output_state =
     (Some FileExistsError,
      \<lparr>screencaps = [(''frame_0.jpg'', File (Full 10))],
       faces = [],
       outputs = [(''a'', Dir [(''screencaps'', Dir [])])],
       printed = [CHR 0x0A # ''Processing video: a.mp4'']\<rparr>)"
  by (simp add: two_video_env_def subdir_state_def stale_output_state_def video_simps
      listing_simps path_simps stream_simps promote_simps)

text \<open>
  C5, amended. A missing startup dependency ends the run with exit status 1, and no error
  of a video is isolated either: the script has no handler, so an error raised while
  processing a video, after the videos before it were processed, ends process_videos
  with that error and the state reached; the videos after it are not processed.
\<close>

theorem errors_halt_the_run:
  "((\<exists>(m, p) \<in> set dependencies. \<not> find_spec env m) \<longrightarrow> snd (check_dependencies env) = Some 1)
   \<and> (filter (is_video env) (listdir_input env) = finished @ v # rest
        \<and> run_videos env mode finished st = (None, st1)
        \<and> process_video env mode v st1 = (Some e, st2)
      \<longrightarrow> process_videos env mode st = (Some e, st2))"
proof -
  have "process_videos env mode st = (Some e, st2)"
    if l: "filter (is_video env) (listdir_input env) = finished @ v # rest"
      and f: "run_videos env mode finished st = (None, st1)"
      and p: "process_video env mode v st1 = (Some e, st2)"
    using run_videos_append [OF f, of "v # rest"] l p by (simp add: process_videos_def)
  then show ?thesis
    using check_dependencies_missing [of env] by blast
qed

theorem errors_halt_the_run_witness:
  "snd (check_dependencies (two_video_env\<lparr>find_spec := (\<lambda>m. m \<noteq> ''tqdm'')\<rparr>)) = Some 1
   \<and> process_videos (raising_env\<lparr>listdir_input := [''b.mp4'', ''a.mp4'']\<rparr>) ''Anime'' empty_state =
       (Some (External ''malformed frame''),
        \<lparr>screencaps = [(''frame_0.jpg'', File (Full 10)), (''frame_1.jpg'', File (Full 11))],
         faces = [],
         outputs = [(''b'', Dir [(''screencaps'', Dir [(''frame_0.jpg'', File (Full 20))]),
                                 (''faces'', Dir [])])],
         printed = [CHR 0x0A # ''Processing video: b.mp4'',
                    ''Processing completed: Results saved in /ScreenCap/output/b'',
                    CHR 0x0A # ''Processing video: a.mp4'']\<rparr>)"
proof -
  let ?env = "raising_env\<lparr>listdir_input := [''b.mp4'', ''a.mp4'']\<rparr>"
  let ?st1 = "\<lparr>screencaps = [(''frame_0.jpg'', File (Full (20::nat)))],
               faces = [],
               outputs = [(''b'', Dir [(''screencaps'', Dir [(''frame_0.jpg'', File (Full 20))]),
                                       (''faces'', Dir [])])],
               printed = [CHR 0x0A # ''Processing video: b.mp4'',
                          ''Processing completed: Results saved in /ScreenCap/output/b'']\<rparr>"
  let ?st2 = "\<lparr>screencaps = [(''frame_0.jpg'', File (Full (10::nat))), (''frame_1.jpg'', File (Full 11))],
               faces = [],
               outputs = [(''b'', Dir [(''screencaps'', Dir [(''frame_0.jpg'', File (Full 20))]),
                                       (''faces'', Dir [])])],
               printed = [CHR 0x0A # ''Processing video: b.mp4'',
                          ''Processing completed: Results saved in /ScreenCap/output/b'',
                          CHR 0x0A # ''Processing video: a.mp4'']\<rparr>"
  have d: "\<exists>(m, p) \<in> set dependencies. \<not> find_spec (two_video_env\<lparr>find_spec := (\<lambda>m. m \<noteq> ''tqdm'')\<rparr>) m"
    by (simp add: dependencies_def)
  have l: "filter (is_video ?env) (listdir_input ?env) = [''b.mp4''] @ ''a.mp4'' # []"
    by (simp add: raising_env_def listing_simps)
  have f: "run_videos ?env ''Anime'' [''b.mp4''] empty_state = (None, ?st1)"
    by (simp add: raising_env_def empty_state_def video_simps path_simps stream_simps
        promote_simps)
  have p: "process_video ?env ''Anime'' ''a.mp4'' ?st1 = (Some (External ''malformed frame''), ?st2)"
    by (simp add: raising_env_def video_simps path_simps stream_simps)
  from errors_halt_the_run [where env = "two_video_env\<lparr>find_spec := (\<lambda>m. m \<noteq> ''tqdm'')\<rparr>"] d
  have a: "snd (check_dependencies (two_video_env\<lparr>find_spec := (\<lambda>m. m \<noteq> ''tqdm'')\<rparr>)) = Some 1"
    by blast
  from errors_halt_the_run [where env = ?env and finished = "[''b.mp4'']" and v = "''a.mp4''"
      and rest = "[]" and mode = "''Anime''" and st = empty_state and ?st1.0 = ?st1
      and e = "External ''malformed frame''" and ?st2.0 = ?st2] l f p
  have b: "process_videos ?env ''Anime'' empty_state = (Some (External ''malformed frame''), ?st2)"
    by blast
  from a b show ?thesis by simp
qed

section \<open>Promotion into an existing output directory\<close>

lemma run_steps_existing:
  assumes "map_of out base = Some (Dir c)" "map_of c ''screencaps'' \<noteq> None"
  shows "run_steps base (promote_steps st) out = (Some FileExistsError, out)"
  using assms
  by (auto simp: promote_steps_def copytree_steps_def makedirs_exist_ok_def in_dir_def mkdir_def)

lemma promote_existing:
  assumes "map_of (outputs st) (fst (splitext v)) = Some (Dir c)" "map_of c ''screencaps'' \<noteq> None"
  shows "promote v st = (Some FileExistsError, st)"
  using run_steps_existing [OF assms] by (simp add: promote_def Let_def)

lemma exec_step_keeps:
  assumes "map_of out base = Some (Dir c)" "map_of c ''screencaps'' \<noteq> None"
      and "exec_step base s out = Inr out'"
  shows "\<exists>c'. map_of out' base = Some (Dir c') \<and> map_of c' ''screencaps'' \<noteq> None"
proof (cases s)
  case Makedirs_video
  with assms show ?thesis by (auto simp: makedirs_exist_ok_def)
next
  case (Makedirs_dst d)
  with assms show ?thesis
    by (auto simp: in_dir_def mkdir_def update_conv' split: option.splits)
next
  case (Copy_entry d n x)
  with assms show ?thesis
    by (auto simp: in_dir_def update_conv' split: option.splits node.splits sum.splits)
qed

lemma exec_step_other:
  assumes "base' \<noteq> base" "exec_step base' s out = Inr out'"
  shows "map_of out' base = map_of out base"
proof (cases s)
  case Makedirs_video
  with assms show ?thesis
    by (auto simp: makedirs_exist_ok_def map_add_def split: option.splits node.splits)
next
  case (Makedirs_dst d)
  with assms show ?thesis
    by (auto simp: in_dir_def mkdir_def update_conv' split: option.splits node.splits sum.splits)
next
  case (Copy_entry d n x)
  with assms show ?thesis
    by (auto simp: in_dir_def update_conv' split: option.splits node.splits sum.splits)
qed

lemma run_steps_keeps:
  "map_of out base = Some (Dir c) \<Longrightarrow> map_of c ''screencaps'' \<noteq> None \<Longrightarrow>
   run_steps base ss out = (r, out') \<Longrightarrow>
   \<exists>c'. map_of out' base = Some (Dir c') \<and> map_of c' ''screencaps'' \<noteq> None"
proof (induction ss arbitrary: out c)
  case Nil
  then show ?case by simp
next
  case (Cons s ss)
  show ?case
  proof (cases "exec_step base s out")
    case (Inl e)
    with Cons.prems show ?thesis by auto
  next
    case (Inr out1)
    from exec_step_keeps [OF Cons.prems(1,2) Inr] obtain c1
      where "map_of out1 base = Some (Dir c1)" "map_of c1 ''screencaps'' \<noteq> None" by blast
    moreover from Cons.prems(3) Inr have "run_steps base ss out1 = (r, out')" by simp
    ultimately show ?thesis using Cons.IH by blast
  qed
qed

lemma run_steps_other:
  "base' \<noteq> base \<Longrightarrow> run_steps base' ss out = (r, out') \<Longrightarrow> map_of out' base = map_of out base"
proof (induction ss arbitrary: out)
  case Nil
  then show ?case by simp
next
  case (Cons s ss)
  show ?case
  proof (cases "exec_step base' s out")
    case (Inl e)
    with Cons.prems show ?thesis by auto
  next
    case (Inr out1)
    with Cons.prems have "run_steps base' ss out1 = (r, out')" by simp
    from Cons.IH [OF Cons.prems(1) this] exec_step_other [OF Cons.prems(1) Inr]
    show ?thesis by simp
  qed
qed

lemma run_steps_success_promoted:
  assumes "run_steps base (promote_steps st) out = (None, out')"
  shows "\<exists>c'. map_of out' base = Some (Dir c') \<and> map_of c' ''screencaps'' \<noteq> None"
proof -
  let ?rest = "map (\<lambda>(name, x). Copy_entry ''screencaps'' name x) (screencaps st)
                 @ copytree_steps ''faces'' (faces st)"
  have ps: "promote_steps st = Makedirs_video # Makedirs_dst ''screencaps'' # ?rest"
    by (simp add: promote_steps_def copytree_steps_def)
  obtain out1 where o1: "exec_step base Makedirs_video out = Inr out1"
    using assms ps by (cases "exec_step base Makedirs_video out") auto
  obtain out2 where o2: "exec_step base (Makedirs_dst ''screencaps'') out1 = Inr out2"
    using assms ps o1 by (cases "exec_step base (Makedirs_dst ''screencaps'') out1") auto
  have r: "run_steps base ?rest out2 = (None, out')"
    using assms ps o1 o2 by simp
  from o2 obtain c2 where "map_of out2 base = Some (Dir c2)" "map_of c2 ''screencaps'' \<noteq> None"
    by (auto simp: in_dir_def mkdir_def update_conv' map_add_def
        split: option.splits node.splits sum.splits)
  from run_steps_keeps [OF this r] show ?thesis .
qed

lemma process_video_cases:
  assumes "process_video env mode v st = (r, st')"
  obtains (reset_failed) e where "r = Some e" "outputs st' = outputs st"
  | (stream_failed) e where "r = Some e" "outputs st' = outputs st"
  | (promoting) st2 where "outputs st2 = outputs st" "promote v st2 = (r, st')"
proof -
  let ?st0 = "print (CHR 0x0A # ''Processing video: '' @ v) st"
  obtain r1 st1 where r1: "reset ?st0 = (r1, st1)" by (cases "reset ?st0")
  have o1: "outputs st1 = outputs st" using reset_frame [OF r1] by (simp add: print_def)
  show thesis
  proof (cases r1)
    case (Some e)
    with assms r1 o1 show thesis by (intro reset_failed [of e]) (auto simp: process_video_def)
  next
    case None
    let ?cap = "video_capture env (join input_dir v)"
    obtain r2 st2 where r2: "stream_video env mode ?cap st1 = (r2, st2)"
      by (cases "stream_video env mode ?cap st1")
    have o2: "outputs st2 = outputs st1"
      using r2 by (auto simp: stream_video_def split: capture.splits dest: read_frames_frame)
    show thesis
    proof (cases r2)
      case (Some e)
      with assms r1 None r2 o1 o2 show thesis
        by (intro stream_failed [of e]) (auto simp: process_video_def)
    next
      case n2: None
      with assms r1 None r2 o1 o2 show thesis
        by (intro promoting [of st2]) (auto simp: process_video_def)
    qed
  qed
qed

lemma promote_outputs:
  "promote v st = (r, st') \<Longrightarrow> run_steps (fst (splitext v)) (promote_steps st) (outputs st) = (r, outputs st')"
  by (auto simp: promote_def Let_def print_def split: prod.splits option.splits)

lemma process_video_existing:
  assumes "map_of (outputs st) (fst (splitext v)) = Some (Dir c)" "map_of c ''screencaps'' \<noteq> None"
  shows "\<exists>e st'. process_video env mode v st = (Some e, st') \<and> outputs st' = outputs st"
proof -
  obtain r st' where p: "process_video env mode v st = (r, st')"
    by (cases "process_video env mode v st")
  from p show ?thesis
  proof (cases rule: process_video_cases)
    case (reset_failed e)
    with p show ?thesis by simp
  next
    case (stream_failed e)
    with p show ?thesis by simp
  next
    case (promoting st2)
    with assms promote_existing [of st2 v c] p show ?thesis by auto
  qed
qed

lemma process_video_success_promoted:
  assumes "process_video env mode v st = (None, st')"
  shows "\<exists>c. map_of (outputs st') (fst (splitext v)) = Some (Dir c) \<and> map_of c ''screencaps'' \<noteq> None"
  using assms
proof (cases rule: process_video_cases)
  case (promoting st2)
  from run_steps_success_promoted [OF promote_outputs [OF promoting(2)]] show ?thesis .
qed simp_all

lemma process_video_other:
  assumes "fst (splitext v) \<noteq> base" "process_video env mode v st = (r, st')"
  shows "map_of (outputs st') base = map_of (outputs st) base"
  using assms(2)
proof (cases rule: process_video_cases)
  case (promoting st2)
  from run_steps_other [OF assms(1) promote_outputs [OF promoting(2)]] promoting(1)
  show ?thesis by simp
qed simp_all

lemma run_videos_keeps:
  "map_of (outputs st) base = Some (Dir c) \<Longrightarrow> map_of c ''screencaps'' \<noteq> None \<Longrightarrow>
   run_videos env mode vs st = (None, st') \<Longrightarrow> map_of (outputs st') base = Some (Dir c)"
proof (induction vs arbitrary: st)
  case Nil
  then show ?case by simp
next
  case (Cons v vs)
  obtain r1 st1 where p: "process_video env mode v st = (r1, st1)"
    by (cases "process_video env mode v st")
  with Cons.prems(3) have r1: "r1 = None" and rest: "run_videos env mode vs st1 = (None, st')"
    by (auto split: option.splits)
  have "fst (splitext v) \<noteq> base"
  proof
    assume "fst (splitext v) = base"
    with process_video_existing [of st v c env mode] Cons.prems(1,2) p r1 show False by auto
  qed
  from process_video_other [OF this p] Cons.prems(1)
  have "map_of (outputs st1) base = Some (Dir c)" by simp
  from Cons.IH [OF this Cons.prems(2) rest] show ?case .
qed


text \<open>
  C7. In a run with two videos of the same base name, the second video does not
  overwrite the output of the first: once the first is promoted, and whatever videos are
  processed between the two, the directory of that base name is as the first left it, and
  processing the second ends with an error and leaves the output hierarchy unchanged.
\<close>

theorem no_silent_overwrite:
  assumes first: "process_video env mode v1 st = (None, st1)"
      and between: "run_videos env mode mid st1 = (None, st2)"
      and same: "fst (splitext v2) = fst (splitext v1)"
  shows "(\<exists>e st3. process_video env mode v2 st2 = (Some e, st3) \<and> outputs st3 = outputs st2)
         \<and> map_of (outputs st2) (fst (splitext v1)) = map_of (outputs st1) (fst (splitext v1))"
proof -
  from process_video_success_promoted [OF first] obtain c
    where c: "map_of (outputs st1) (fst (splitext v1)) = Some (Dir c)"
      "map_of c ''screencaps'' \<noteq> None"
    by blast
  from run_videos_keeps [OF c between]
  have k: "map_of (outputs st2) (fst (splitext v1)) = Some (Dir c)" .
  with process_video_existing [of st2 v2 c env mode] same c show ?thesis by simp
qed

theorem no_silent_overwrite_witness:
  "fst (splitext ''a.avi'') = fst (splitext ''a.mp4'')
   \<and> process_video two_video_env ''Anime'' ''a.mp4'' empty_state =
       (None,
        \<lparr>screencaps = [(''frame_0.jpg'', File (Full 10))],
         faces = [],
         outputs = [(''a'', Dir [(''screencaps'', Dir [(''frame_0.jpg'', File (Full 10))]),
                                 (''faces'', Dir [])])],
         printed = [CHR 0x0A # ''Processing video: a.mp4'',
                    ''Processing completed: Results saved in /ScreenCap/output/a'']\<rparr>)
   \<and> (\<exists>e st3. process_video two_video_env ''Anime'' ''a.avi''
          \<lparr>screencaps = [(''frame_0.jpg'', File (Full 10))],
           faces = [],
           outputs = [(''a'', Dir [(''screencaps'', Dir [(''frame_0.jpg'', File (Full 10))]),
                                   (''faces'', Dir [])])],
           printed = [CHR 0x0A # ''Processing video: a.mp4'',
                      ''Processing completed: Results saved in /ScreenCap/output/a'']\<rparr>
          = (Some e, st3)
        \<and> outputs st3 = [(''a'', Dir [(''screencaps'', Dir [(''frame_0.jpg'', File (Full 10))]),
                                     (''faces'', Dir [])])])"
proof -
  let ?st1 = "\<lparr>screencaps = [(''frame_0.jpg'', File (Full (10::nat)))],
               faces = [],
               outputs = [(''a'', Dir [(''screencaps'', Dir [(''frame_0.jpg'', File (Full 10))]),
                                       (''faces'', Dir [])])],
               printed = [CHR 0x0A # ''Processing video: a.mp4'',
                          ''Processing completed: Results saved in /ScreenCap/output/a'']\<rparr>"
  have h1: "process_video two_video_env ''Anime'' ''a.mp4'' empty_state = (None, ?st1)"
    by (simp add: two_video_env_def empty_state_def video_simps path_simps stream_simps
        promote_simps)
  have h2: "run_videos two_video_env ''Anime'' [] ?st1 = (None, ?st1)"
    by simp
  have h3: "fst (splitext ''a.avi'') = fst (splitext ''a.mp4'')"
    by (simp add: splitext_examples)
  from no_silent_overwrite [OF h1 h2 h3] h1 h3 show ?thesis
    by simp
qed

section \<open>Promotion step by step\<close>

lemma update_fresh: "k \<notin> fst ` set al \<Longrightarrow> AList.update k v al = al @ [(k, v)]"
  by (induction al) auto

lemma update_at_end: "k \<notin> fst ` set al \<Longrightarrow> AList.update k v (al @ [(k, w)]) = al @ [(k, v)]"
  by (induction al) auto

lemma map_of_at_end: "k \<notin> fst ` set al \<Longrightarrow> map_of (al @ [(k, v)]) k = Some v"
  by (induction al) auto

lemma map_add_at_end: "k \<notin> fst ` set al \<Longrightarrow> ([k \<mapsto> v] ++ map_of al) k = Some v"
proof -
  assume "k \<notin> fst ` set al"
  then have "map_of al k = None" by (simp add: map_of_eq_None_iff)
  then show ?thesis by (simp add: map_add_def)
qed

lemma run_steps_append:
  "run_steps base a out = (None, out1) \<Longrightarrow> run_steps base (a @ b) out = run_steps base b out1"
  by (induction a arbitrary: out) (auto split: sum.splits)

lemma copy_entries:
  assumes "base \<notin> fst ` set outs" "d \<notin> fst ` set c" "distinct (map fst (pre @ es))"
  shows "run_steps base (map (\<lambda>(name, x). Copy_entry d name x) es)
           (outs @ [(base, Dir (c @ [(d, Dir pre)]))])
         = (None, outs @ [(base, Dir (c @ [(d, Dir (pre @ es))]))])"
  using assms(3)
proof (induction es arbitrary: pre)
  case Nil
  then show ?case by simp
next
  case (Cons a es)
  obtain n x where a: "a = (n, x)" by (cases a)
  from Cons.prems a have fresh: "n \<notin> fst ` set pre" by auto
  have step: "exec_step base (Copy_entry d n x) (outs @ [(base, Dir (c @ [(d, Dir pre)]))])
                = Inr (outs @ [(base, Dir (c @ [(d, Dir (pre @ [(n, x)]))]))])"
    using assms(1,2) fresh
    by (simp add: in_dir_def map_add_at_end update_at_end update_fresh)
  from Cons.prems a have "distinct (map fst ((pre @ [(n, x)]) @ es))" by simp
  from Cons.IH [OF this] step a show ?case by simp
qed

lemma copytree_run:
  assumes "base \<notin> fst ` set outs" "d \<notin> fst ` set c" "distinct (map fst src)" "j \<le> length src"
  shows "run_steps base (take (Suc j) (copytree_steps d src)) (outs @ [(base, Dir c)])
         = (None, outs @ [(base, Dir (c @ [(d, Dir (take j src))]))])"
proof -
  from assms(2) have "map_of c d = None"
    by (simp add: map_of_eq_None_iff)
  then have mk: "exec_step base (Makedirs_dst d) (outs @ [(base, Dir c)])
              = Inr (outs @ [(base, Dir (c @ [(d, Dir [])]))])"
    using assms(1)
    by (simp add: in_dir_def mkdir_def map_add_at_end update_at_end)
  have "distinct (map fst ([] @ take j src))"
    using assms(3) by (simp add: distinct_take take_map [symmetric])
  from copy_entries [OF assms(1,2) this] mk show ?thesis
    by (simp add: copytree_steps_def take_map)
qed

lemma makedirs_video_fresh:
  "base \<notin> fst ` set outs \<Longrightarrow> exec_step base Makedirs_video outs = Inr (outs @ [(base, Dir [])])"
proof -
  assume "base \<notin> fst ` set outs"
  then have "map_of outs base = None" by (simp add: map_of_eq_None_iff)
  then show ?thesis by (simp add: makedirs_exist_ok_def)
qed

lemma length_copytree_steps [simp]: "length (copytree_steps d src) = Suc (length src)"
  by (simp add: copytree_steps_def)

lemma run_snapshots:
  assumes "base \<notin> fst ` set outs" "distinct (map fst (screencaps st))" "j \<le> length (screencaps st)"
  shows "run_steps base (take (2 + j) (promote_steps st)) outs
         = (None, outs @ [(base, Dir [(''screencaps'', Dir (take j (screencaps st)))])])"
proof -
  have t: "take (2 + j) (promote_steps st)
             = Makedirs_video # take (Suc j) (copytree_steps ''screencaps'' (screencaps st))"
    using assms(3) by (simp add: promote_steps_def)
  have "''screencaps'' \<notin> fst ` set ([] :: 'a image dir)" by simp
  from copytree_run [OF assms(1) this assms(2,3)] makedirs_video_fresh [OF assms(1)] t
  show ?thesis by simp
qed

lemma run_regions:
  assumes "base \<notin> fst ` set outs" "distinct (map fst (screencaps st))"
      and "distinct (map fst (faces st))" "j \<le> length (faces st)"
  shows "run_steps base (take (3 + length (screencaps st) + j) (promote_steps st)) outs
         = (None, outs @ [(base, Dir [(''screencaps'', Dir (screencaps st)),
                                      (''faces'', Dir (take j (faces st)))])])"
proof -
  let ?A = "Makedirs_video # copytree_steps ''screencaps'' (screencaps st)"
  have t: "take (3 + length (screencaps st) + j) (promote_steps st)
             = ?A @ take (Suc j) (copytree_steps ''faces'' (faces st))"
  proof -
    have "3 + length (screencaps st) + j
            = Suc (length (copytree_steps ''screencaps'' (screencaps st)) + Suc j)"
      by simp
    then have "take (3 + length (screencaps st) + j) (promote_steps st)
            = take (Suc (length (copytree_steps ''screencaps'' (screencaps st)) + Suc j))
                (promote_steps st)"
      by (rule arg_cong)
    also have "\<dots> = ?A @ take (Suc j) (copytree_steps ''faces'' (faces st))"
      by (simp add: promote_steps_def del: length_copytree_steps)
    finally show ?thesis .
  qed
  have "run_steps base (take (2 + length (screencaps st)) (promote_steps st)) outs
          = (None, outs @ [(base, Dir [(''screencaps'', Dir (screencaps st))])])"
    using run_snapshots [OF assms(1,2), of "length (screencaps st)"] by simp
  moreover have "take (2 + length (screencaps st)) (promote_steps st) = ?A"
    by (simp add: promote_steps_def)
  ultimately have a: "run_steps base ?A outs
          = (None, outs @ [(base, Dir [(''screencaps'', Dir (screencaps st))])])"
    by simp
  have "''faces'' \<notin> fst ` set [(''screencaps'', Dir (screencaps st))]" by simp
  from copytree_run [OF assms(1) this assms(3,4)] run_steps_append [OF a] t
  show ?thesis by simp
qed


text \<open>
  C1, as the claim states it, fails: stopped after its fourth step, the promotion of a
  workspace with two snapshots and one region leaves, under the final name, a directory
  with both snapshots and no region directory, which is neither nothing nor the full set.
\<close>

theorem promotion_atomic_counterexample:
  "outputs (promote_interrupted 4 ''clip.mp4'' used_workspace) =
     [(''clip'', Dir [(''screencaps'', Dir [(''frame_0.jpg'', File (Full 7)),
                                            (''frame_1.jpg'', File (Full 8))])])]
   \<and> outputs (snd (promote ''clip.mp4'' used_workspace)) =
     [(''clip'', Dir [(''screencaps'', Dir [(''frame_0.jpg'', File (Full 7)),
                                            (''frame_1.jpg'', File (Full 8))]),
                     (''faces'', Dir [(''anime_face_1_0.jpg'', File (Crop 8 0 4 0 4))])])]"
  by (simp add: promote_interrupted_def used_workspace_def promote_simps print_def
      eval_nat_numeral)

text \<open>
  C1, amended. Promotion is not atomic. For a base name with no entry in the output
  directory yet, it creates the directory under the final name first and then copies
  the snapshots and after them the regions into it, one entry at a time; stopped after k
  steps, the directory under the final name holds what those k steps made: nothing for
  k = 0, the empty directory for k = 1, the first j snapshots for k = 2 + j, all
  snapshots and the first j regions for k = 3 + (number of snapshots) + j. The completed
  promotion shows the full set.
\<close>

theorem promotion_step_by_step:
  assumes fresh: "fst (splitext v) \<notin> fst ` set (outputs st)"
      and ds: "distinct (map fst (screencaps st))"
      and df: "distinct (map fst (faces st))"
  shows "outputs (promote_interrupted 0 v st) = outputs st
       \<and> outputs (promote_interrupted 1 v st) = outputs st @ [(fst (splitext v), Dir [])]
       \<and> (j \<le> length (screencaps st) \<longrightarrow>
            outputs (promote_interrupted (2 + j) v st)
              = outputs st @ [(fst (splitext v), Dir [(''screencaps'', Dir (take j (screencaps st)))])])
       \<and> (j \<le> length (faces st) \<longrightarrow>
            outputs (promote_interrupted (3 + length (screencaps st) + j) v st)
              = outputs st @ [(fst (splitext v), Dir [(''screencaps'', Dir (screencaps st)),
                                                     (''faces'', Dir (take j (faces st)))])])
       \<and> promote v st =
           (None, print (''Processing completed: Results saved in '' @ join output_dir (fst (splitext v)))
                    (st\<lparr>outputs := outputs st @ [(fst (splitext v), Dir [(''screencaps'', Dir (screencaps st)),
                                                                        (''faces'', Dir (faces st))])]\<rparr>))"
proof -
  let ?base = "fst (splitext v)"
  have a: "outputs (promote_interrupted 0 v st) = outputs st"
    by (simp add: promote_interrupted_def)
  have b: "outputs (promote_interrupted 1 v st) = outputs st @ [(?base, Dir [])]"
    using makedirs_video_fresh [OF fresh] by (simp add: promote_interrupted_def promote_steps_def)
  have c: "outputs (promote_interrupted (2 + j) v st)
              = outputs st @ [(?base, Dir [(''screencaps'', Dir (take j (screencaps st)))])]"
    if "j \<le> length (screencaps st)"
    using run_snapshots [OF fresh ds that] by (simp add: promote_interrupted_def)
  have d: "outputs (promote_interrupted (3 + length (screencaps st) + j) v st)
              = outputs st @ [(?base, Dir [(''screencaps'', Dir (screencaps st)),
                                          (''faces'', Dir (take j (faces st)))])]"
    if "j \<le> length (faces st)"
    using run_regions [OF fresh ds df that] by (simp add: promote_interrupted_def)
  have "take (3 + length (screencaps st) + length (faces st)) (promote_steps st) = promote_steps st"
    by (simp add: promote_steps_def)
  with run_regions [OF fresh ds df, of "length (faces st)"]
  have "run_steps ?base (promote_steps st) (outputs st)
          = (None, outputs st @ [(?base, Dir [(''screencaps'', Dir (screencaps st)),
                                              (''faces'', Dir (faces st))])])"
    by simp
  then have e: "promote v st =
           (None, print (''Processing completed: Results saved in '' @ join output_dir ?base)
                    (st\<lparr>outputs := outputs st @ [(?base, Dir [(''screencaps'', Dir (screencaps st)),
                                                               (''faces'', Dir (faces st))])]\<rparr>))"
    by (simp add: promote_def Let_def)
  from a b c d e show ?thesis by blast
qed


theorem promotion_step_by_step_witness:
  "fst (splitext ''clip.mp4'') = ''clip''
   \<and> outputs used_workspace = []
   \<and> outputs (promote_interrupted (2 + 1) ''clip.mp4'' used_workspace) =
       [] @ [(''clip'', Dir [(''screencaps'', Dir [(''frame_0.jpg'', File (Full 7))])])]
   \<and> outputs (promote_interrupted (3 + 2 + 0) ''clip.mp4'' used_workspace) =
       [] @ [(''clip'', Dir [(''screencaps'', Dir [(''frame_0.jpg'', File (Full 7)),
                                                  (''frame_1.jpg'', File (Full 8))]),
                           (''faces'', Dir [])])]
   \<and> fst (promote ''clip.mp4'' used_workspace) = None"
proof -
  have fresh: "fst (splitext ''clip.mp4'') \<notin> fst ` set (outputs used_workspace)"
    by (simp add: used_workspace_def)
  have ds: "distinct (map fst (screencaps used_workspace))"
    by (simp add: used_workspace_def)
  have df: "distinct (map fst (faces used_workspace))"
    by (simp add: used_workspace_def)
  have l: "length (screencaps used_workspace) = 2" "(1::nat) \<le> 2" "(0::nat) \<le> length (faces used_workspace)"
    by (simp_all add: used_workspace_def)
  have s: "take 1 (screencaps used_workspace) = [(''frame_0.jpg'', File (Full 7))]"
    "screencaps used_workspace = [(''frame_0.jpg'', File (Full 7)), (''frame_1.jpg'', File (Full 8))]"
    "outputs used_workspace = []"
    by (simp_all add: used_workspace_def)
  from promotion_step_by_step [OF fresh ds df, of 1] l s
  have a: "outputs (promote_interrupted (2 + 1) ''clip.mp4'' used_workspace) =
       [] @ [(''clip'', Dir [(''screencaps'', Dir [(''frame_0.jpg'', File (Full 7))])])]"
    by (simp add: splitext_examples)
  from promotion_step_by_step [OF fresh ds df, of 0] l s
  have b: "outputs (promote_interrupted (3 + 2 + 0) ''clip.mp4'' used_workspace) =
       [] @ [(''clip'', Dir [(''screencaps'', Dir [(''frame_0.jpg'', File (Full 7)),
                                                  (''frame_1.jpg'', File (Full 8))]),
                           (''faces'', Dir [])])]"
    by (simp add: splitext_examples)
  from promotion_step_by_step [OF fresh ds df, of 0]
  have c: "fst (promote ''clip.mp4'' used_workspace) = None"
    by simp
  from a b c s show ?thesis
    by (simp add: splitext_examples)
qed

section \<open>File names\<close>

lemma digit_char_inj: "a < 10 \<Longrightarrow> b < 10 \<Longrightarrow> digit_char a = digit_char b \<Longrightarrow> a = b"
proof -
  assume a: "a < 10" and b: "b < 10" and e: "digit_char a = digit_char b"
  have d: "distinct ''0123456789''" by simp
  have l: "length ''0123456789'' = 10" by simp
  from e have "''0123456789'' ! a = ''0123456789'' ! b" by (simp only: digit_char_def)
  with nth_eq_iff_index_eq [OF d, of a b] a b l show "a = b" by simp
qed

lemma str_nat_nonempty: "str_nat n \<noteq> []"
  by (subst str_nat.simps) simp

lemma str_nat_inj: "str_nat n = str_nat m \<Longrightarrow> n = m"
proof (induction n arbitrary: m rule: str_nat.induct)
  case (1 n)
  show ?case
  proof (cases "n < 10")
    case True
    show ?thesis
    proof (cases "m < 10")
      case m: True
      from "1.prems" True m have "digit_char n = digit_char m"
        by (simp add: str_nat.simps [of n] str_nat.simps [of m])
      with True m show ?thesis by (rule digit_char_inj)
    next
      case False
      with "1.prems" True have "[digit_char n] = str_nat (m div 10) @ [digit_char (m mod 10)]"
        by (simp add: str_nat.simps [of n] str_nat.simps [of m])
      with str_nat_nonempty [of "m div 10"] show ?thesis by simp
    qed
  next
    case False
    show ?thesis
    proof (cases "m < 10")
      case True
      with "1.prems" False have "str_nat (n div 10) @ [digit_char (n mod 10)] = [digit_char m]"
        by (simp add: str_nat.simps [of n] str_nat.simps [of m])
      with str_nat_nonempty [of "n div 10"] show ?thesis by simp
    next
      case m: False
      from "1.prems" False m
      have "str_nat (n div 10) @ [digit_char (n mod 10)] = str_nat (m div 10) @ [digit_char (m mod 10)]"
        by (simp add: str_nat.simps [of n] str_nat.simps [of m])
      then have e: "str_nat (n div 10) = str_nat (m div 10)" "digit_char (n mod 10) = digit_char (m mod 10)"
        by simp_all
      from "1.IH" [OF False e(1)] have "n div 10 = m div 10" .
      moreover from e(2) have "n mod 10 = m mod 10" by (intro digit_char_inj) simp_all
      ultimately show ?thesis by (metis div_mult_mod_eq)
    qed
  qed
qed

lemma frame_name_inj: "frame_name n = frame_name m \<Longrightarrow> n = m"
  by (simp add: frame_name_def str_nat_inj)

lemma anime_name_inj: "anime_name fc i = anime_name fc j \<Longrightarrow> i = j"
  by (simp add: anime_name_def str_nat_inj)

lemma realistic_name_inj: "realistic_name fc i = realistic_name fc j \<Longrightarrow> i = j"
  by (simp add: realistic_name_def str_nat_inj)

lemma digit_char_digit: "d < 10 \<Longrightarrow> digit_char d \<in> set ''0123456789''"
proof -
  assume "d < 10"
  then have "d < length ''0123456789''" by simp
  then have "''0123456789'' ! d \<in> set ''0123456789''" by (rule nth_mem)
  then show ?thesis by (simp only: digit_char_def)
qed

lemma str_nat_digits_only: "set (str_nat n) \<subseteq> set ''0123456789''"
proof (induction n rule: str_nat.induct)
  case (1 n)
  show ?case
  proof (cases "n < 10")
    case True
    with digit_char_digit [of n] show ?thesis by (simp add: str_nat.simps [of n])
  next
    case False
    have "n mod 10 < 10" by simp
    from digit_char_digit [OF this] "1.IH" [OF False] False show ?thesis
      by (simp add: str_nat.simps [of n])
  qed
qed

lemma str_nat_no_underscore: "CHR ''_'' \<notin> set (str_nat n)"
  using str_nat_digits_only [of n] by auto

lemma split_at_separator:
  "c \<notin> set a \<Longrightarrow> c \<notin> set a' \<Longrightarrow> a @ c # b = a' @ c # b' \<Longrightarrow> a = a' \<and> b = b'"
proof (induction a arbitrary: a')
  case Nil
  then show ?case by (cases a') auto
next
  case (Cons x a)
  then show ?case by (cases a') auto
qed

lemma anime_name_frame_inj: "anime_name n i = anime_name m j \<Longrightarrow> n = m"
proof -
  assume "anime_name n i = anime_name m j"
  then have "str_nat n @ CHR ''_'' # (str_nat i @ ''.jpg'') = str_nat m @ CHR ''_'' # (str_nat j @ ''.jpg'')"
    by (simp add: anime_name_def)
  from split_at_separator [OF str_nat_no_underscore str_nat_no_underscore this]
  show ?thesis by (simp add: str_nat_inj)
qed


lemma realistic_name_frame_inj: "realistic_name n i = realistic_name m j \<Longrightarrow> n = m"
proof -
  assume "realistic_name n i = realistic_name m j"
  then have "str_nat n @ CHR ''_'' # (str_nat i @ ''.jpg'') = str_nat m @ CHR ''_'' # (str_nat j @ ''.jpg'')"
    by (simp add: realistic_name_def)
  from split_at_separator [OF str_nat_no_underscore str_nat_no_underscore this]
  show ?thesis by (simp add: str_nat_inj)
qed

section \<open>Writing an image\<close>

lemma mset_insert_at [simp]: "mset (insert_at k x xs) = add_mset x (mset xs)"
proof -
  have "mset (take k xs) + mset (drop k xs) = mset xs"
    by (simp add: union_code)
  then show ?thesis by (simp add: insert_at_def)
qed

lemma imwrite_empty:
  "empty_image (frame_shape env) img \<Longrightarrow> imwrite env name img d = Inl Cv2Error"
  by (simp add: imwrite_def)

lemma imwrite_raises:
  "imwrite env name img d = Inl e \<Longrightarrow> e = Cv2Error \<and> empty_image (frame_shape env) img"
  by (auto simp: imwrite_def split: if_splits option.splits node.splits)

lemma imwrite_fresh:
  assumes "\<not> empty_image (frame_shape env) img" "name \<notin> fst ` set d"
  shows "\<exists>d'. imwrite env name img d = Inr d' \<and> mset d' = add_mset (name, File img) (mset d)"
proof -
  from assms(2) have "map_of d name = None" by (simp add: map_of_eq_None_iff)
  with assms(1) show ?thesis by (simp add: imwrite_def)
qed

section \<open>Snapshots\<close>

lemma snapshot_keys: "map fst (map snapshot (enumerate 0 fs)) = map frame_name [0..<length fs]"
proof -
  have "fst \<circ> snapshot = frame_name \<circ> (fst :: nat \<times> 'a \<Rightarrow> nat)"
    by (auto simp: snapshot_def)
  then have "map fst (map snapshot (enumerate 0 fs)) = map frame_name (map fst (enumerate 0 fs))"
    by (simp only: map_map)
  also have "map fst (enumerate 0 fs) = [0..<length fs]"
    by simp
  finally show ?thesis .
qed

lemma snapshot_names:
  assumes "mset d = mset (map snapshot (enumerate 0 pre))"
  shows "fst ` set d = frame_name ` {0..<length pre}"
proof -
  from assms have "set d = set (map snapshot (enumerate 0 pre))"
    by (rule mset_eq_setD)
  then have "fst ` set d = set (map fst (map snapshot (enumerate 0 pre)))"
    by (simp only: set_map)
  also have "\<dots> = set (map frame_name [0..<length pre])"
    by (simp only: snapshot_keys)
  also have "\<dots> = frame_name ` {0..<length pre}"
    by simp
  finally show ?thesis .
qed

lemma snapshot_next:
  assumes inv: "mset (screencaps st) = mset (map snapshot (enumerate 0 pre))"
      and ne: "\<not> empty_image (frame_shape env) (Full f)"
  shows "\<exists>d. imwrite env (frame_name (length pre)) (Full f) (screencaps st) = Inr d
             \<and> mset d = mset (map snapshot (enumerate 0 (pre @ [f])))"
proof -
  have "frame_name (length pre) \<notin> fst ` set (screencaps st)"
    using snapshot_names [OF inv] by (auto dest: frame_name_inj)
  from imwrite_fresh [OF ne this] inv show ?thesis
    by (auto simp: enumerate_append_eq snapshot_def)
qed

lemma read_frames_snapshots:
  assumes "read_frames env mode rs (length pre) st = (r, st')"
      and "mset (screencaps st) = mset (map snapshot (enumerate 0 pre))"
  shows "(r = None \<longrightarrow>
            mset (screencaps st') = mset (map snapshot (enumerate 0 (pre @ decoded_frames rs))))
         \<and> (\<forall>e. r = Some e \<longrightarrow>
              (\<exists>k < length (decoded_frames rs).
                 (empty_image (frame_shape env) (Full (decoded_frames rs ! k)) \<and> e = Cv2Error
                    \<and> mset (screencaps st')
                        = mset (map snapshot (enumerate 0 (pre @ take k (decoded_frames rs)))))
               \<or> (\<not> empty_image (frame_shape env) (Full (decoded_frames rs ! k))
                    \<and> (\<exists>a b. detect env mode (decoded_frames rs ! k) (length pre + k) a = (Some e, b))
                    \<and> mset (screencaps st')
                        = mset (map snapshot (enumerate 0 (pre @ take (Suc k) (decoded_frames rs)))))))"
  using assms
proof (induction rs arbitrary: pre st)
  case Nil
  then show ?case by simp
next
  case (Cons x rs)
  show ?case
  proof (cases x)
    case DecodeFail
    with Cons.prems show ?thesis by simp
  next
    case (Frame f)
    let ?n = "length pre"
    let ?D = "decoded_frames (x # rs)"
    have D: "?D = f # decoded_frames rs" using Frame by simp
    show ?thesis
    proof (cases "empty_image (frame_shape env) (Full f)")
      case True
      with Cons.prems(1) Frame have "r = Some Cv2Error" "st' = st"
        by (simp_all add: imwrite_empty)
      moreover have "0 < length ?D" using D by simp
      moreover have "empty_image (frame_shape env) (Full (?D ! 0))" using True D by simp
      moreover have "mset (screencaps st) = mset (map snapshot (enumerate 0 (pre @ take 0 ?D)))"
        using Cons.prems(2) by simp
      ultimately show ?thesis by (intro conjI impI allI) (simp, blast)
    next
      case False
      from snapshot_next [OF Cons.prems(2) False] obtain d
        where w: "imwrite env (frame_name ?n) (Full f) (screencaps st) = Inr d"
          and md: "mset d = mset (map snapshot (enumerate 0 (pre @ [f])))"
        by blast
      let ?st1 = "st\<lparr>screencaps := d\<rparr>"
      obtain r2 st2 where dt: "detect env mode f ?n ?st1 = (r2, st2)"
        by (cases "detect env mode f ?n ?st1")
      from detect_frame [OF dt] md
      have s2: "mset (screencaps st2) = mset (map snapshot (enumerate 0 (pre @ [f])))"
        by simp
      show ?thesis
      proof (cases r2)
        case (Some e)
        with Cons.prems(1) Frame w dt have res: "r = Some e" "st' = st2" by simp_all
        have "0 < length ?D" using D by simp
        moreover have "\<not> empty_image (frame_shape env) (Full (?D ! 0))" using False D by simp
        moreover have "\<exists>a b. detect env mode (?D ! 0) (?n + 0) a = (Some e, b)"
          using dt Some D by auto
        moreover have "mset (screencaps st') = mset (map snapshot (enumerate 0 (pre @ take (Suc 0) ?D)))"
          using s2 res D by simp
        ultimately show ?thesis using res by (intro conjI impI allI) (simp, blast)
      next
        case None
        with Cons.prems(1) Frame w dt
        have rest: "read_frames env mode rs (length (pre @ [f])) st2 = (r, st')" by simp
        note ih = Cons.IH [OF rest s2]
        show ?thesis
        proof (intro conjI impI allI)
          assume "r = None"
          with ih D show "mset (screencaps st') = mset (map snapshot (enumerate 0 (pre @ ?D)))"
            by simp
        next
          fix e assume "r = Some e"
          with ih obtain k where k: "k < length (decoded_frames rs)"
            and alt: "(empty_image (frame_shape env) (Full (decoded_frames rs ! k)) \<and> e = Cv2Error
                    \<and> mset (screencaps st')
                        = mset (map snapshot (enumerate 0 ((pre @ [f]) @ take k (decoded_frames rs)))))
               \<or> (\<not> empty_image (frame_shape env) (Full (decoded_frames rs ! k))
                    \<and> (\<exists>a b. detect env mode (decoded_frames rs ! k) (length (pre @ [f]) + k) a = (Some e, b))
                    \<and> mset (screencaps st')
                        = mset (map snapshot (enumerate 0 ((pre @ [f]) @ take (Suc k) (decoded_frames rs)))))"
            by blast
          have "Suc k < length ?D" using k D by simp
          moreover from alt D
          have "(empty_image (frame_shape env) (Full (?D ! Suc k)) \<and> e = Cv2Error
                    \<and> mset (screencaps st')
                        = mset (map snapshot (enumerate 0 (pre @ take (Suc k) ?D))))
               \<or> (\<not> empty_image (frame_shape env) (Full (?D ! Suc k))
                    \<and> (\<exists>a b. detect env mode (?D ! Suc k) (length pre + Suc k) a = (Some e, b))
                    \<and> mset (screencaps st')
                        = mset (map snapshot (enumerate 0 (pre @ take (Suc (Suc k)) ?D))))"
            by simp
          ultimately show "\<exists>k < length ?D.
                 (empty_image (frame_shape env) (Full (?D ! k)) \<and> e = Cv2Error
                    \<and> mset (screencaps st')
                        = mset (map snapshot (enumerate 0 (pre @ take k ?D))))
               \<or> (\<not> empty_image (frame_shape env) (Full (?D ! k))
                    \<and> (\<exists>a b. detect env mode (?D ! k) (length pre + k) a = (Some e, b))
                    \<and> mset (screencaps st')
                        = mset (map snapshot (enumerate 0 (pre @ take (Suc k) ?D))))"
            by blast
        qed
      qed
    qed
  qed
qed

lemma promote_workspace:
  "promote v st = (r, st') \<Longrightarrow> screencaps st' = screencaps st \<and> faces st' = faces st"
  by (auto simp: promote_def Let_def print_def split: prod.splits option.splits)

lemma stream_video_snapshots:
  assumes "stream_video env mode cap st = (r, st')" "screencaps st = []"
  shows "(r = None \<longrightarrow> mset (screencaps st') = mset (map snapshot (enumerate 0 (decoded cap))))
         \<and> (\<forall>e. r = Some e \<longrightarrow>
              (\<exists>k < length (decoded cap).
                 (empty_image (frame_shape env) (Full (decoded cap ! k)) \<and> e = Cv2Error
                    \<and> mset (screencaps st') = mset (map snapshot (enumerate 0 (take k (decoded cap)))))
               \<or> (\<not> empty_image (frame_shape env) (Full (decoded cap ! k))
                    \<and> (\<exists>a b. detect env mode (decoded cap ! k) k a = (Some e, b))
                    \<and> mset (screencaps st')
                        = mset (map snapshot (enumerate 0 (take (Suc k) (decoded cap)))))))"
proof (cases cap)
  case Unopened
  with assms show ?thesis by (simp add: stream_video_def decoded_def)
next
  case (Opened rs)
  with assms have "read_frames env mode rs (length ([] :: 'a list)) st = (r, st')"
    by (simp add: stream_video_def)
  from read_frames_snapshots [OF this] assms(2) Opened show ?thesis
    by (simp add: decoded_def)
qed

lemma process_video_snapshots:
  assumes "process_video env mode v st = (None, st')"
  shows "mset (screencaps st')
           = mset (map snapshot (enumerate 0 (decoded (video_capture env (join input_dir v)))))"
proof -
  let ?st0 = "print (CHR 0x0A # ''Processing video: '' @ v) st"
  let ?cap = "video_capture env (join input_dir v)"
  obtain r1 st1 where r1: "reset ?st0 = (r1, st1)" by (cases "reset ?st0")
  obtain r2 st2 where r2: "stream_video env mode ?cap st1 = (r2, st2)"
    by (cases "stream_video env mode ?cap st1")
  from assms r1 r2 have n: "r1 = None" "r2 = None" and p: "promote v st2 = (None, st')"
    by (auto simp: process_video_def split: option.splits)
  from r1 n reset_ok_empty [of ?st0] have "screencaps st1 = []" by simp
  from stream_video_snapshots [OF r2 this] n
  have "mset (screencaps st2) = mset (map snapshot (enumerate 0 (decoded ?cap)))" by simp
  with promote_workspace [OF p] show ?thesis by simp
qed

lemma frame_names_distinct: "distinct (map frame_name [0..<n])"
  by (simp add: distinct_map inj_on_def) (blast dest: frame_name_inj)

text \<open>
  C2, as the claim states it, fails: of a video with three decodable frames, on whose
  frame 1 the detector raises, two snapshots are written and not three.
\<close>

theorem snapshot_count_counterexample:
  "decoded (video_capture thin_box_env (join input_dir ''clip.mp4'')) = [10, 11, 12]
   \<and> process_video thin_box_env ''Realistic'' ''clip.mp4'' empty_state =
       (Some Cv2Error,
        \<lparr>screencaps = [(''frame_0.jpg'', File (Full 10)), (''frame_1.jpg'', File (Full 11))],
         faces = [(''realistic_face_1_0.jpg'', File (Crop 11 0 4 0 4))],
         outputs = [],
         printed = [CHR 0x0A # ''Processing video: clip.mp4'']\<rparr>)"
  by (simp add: thin_box_env_def empty_state_def decoded_def video_simps path_simps stream_simps)

text \<open>
  C2, amended. Processing a video writes one snapshot for each frame it decodes and
  reaches, under the names of the frame indices from 0 on without a gap. A video that is
  processed without error leaves exactly the N snapshots of its N decodable frames. When
  the frame loop ends with an error at frame k, it leaves exactly the snapshots of the
  frames 0 to k if the detector raised on frame k, and those of the frames 0 to k-1 if
  the write of the snapshot of frame k raised, which it does on an empty frame. The
  names of N snapshots are distinct. The snapshot container is compared as a collection
  of entries, its listing order being the file system's.
\<close>

theorem snapshots_of_processed_frames:
  "(process_video env mode v st = (None, st') \<longrightarrow>
      mset (screencaps st')
        = mset (map snapshot (enumerate 0 (decoded (video_capture env (join input_dir v))))))
   \<and> (stream_video env mode cap st0 = (r, st1) \<and> screencaps st0 = [] \<longrightarrow>
        (r = None \<longrightarrow> mset (screencaps st1) = mset (map snapshot (enumerate 0 (decoded cap))))
        \<and> (\<forall>e. r = Some e \<longrightarrow>
              (\<exists>k < length (decoded cap).
                 (empty_image (frame_shape env) (Full (decoded cap ! k)) \<and> e = Cv2Error
                    \<and> mset (screencaps st1) = mset (map snapshot (enumerate 0 (take k (decoded cap)))))
               \<or> (\<not> empty_image (frame_shape env) (Full (decoded cap ! k))
                    \<and> (\<exists>a b. detect env mode (decoded cap ! k) k a = (Some e, b))
                    \<and> mset (screencaps st1)
                        = mset (map snapshot (enumerate 0 (take (Suc k) (decoded cap))))))))
   \<and> map fst (map snapshot (enumerate 0 fs)) = map frame_name [0..<length fs]
   \<and> size (mset (map snapshot (enumerate 0 fs))) = length fs
   \<and> distinct (map frame_name [0..<length fs])"
proof -
  have a: "mset (screencaps st')
        = mset (map snapshot (enumerate 0 (decoded (video_capture env (join input_dir v)))))"
    if "process_video env mode v st = (None, st')"
    using that by (rule process_video_snapshots)
  have b: "(r = None \<longrightarrow> mset (screencaps st1) = mset (map snapshot (enumerate 0 (decoded cap))))
        \<and> (\<forall>e. r = Some e \<longrightarrow>
              (\<exists>k < length (decoded cap).
                 (empty_image (frame_shape env) (Full (decoded cap ! k)) \<and> e = Cv2Error
                    \<and> mset (screencaps st1) = mset (map snapshot (enumerate 0 (take k (decoded cap)))))
               \<or> (\<not> empty_image (frame_shape env) (Full (decoded cap ! k))
                    \<and> (\<exists>a b. detect env mode (decoded cap ! k) k a = (Some e, b))
                    \<and> mset (screencaps st1)
                        = mset (map snapshot (enumerate 0 (take (Suc k) (decoded cap)))))))"
    if "stream_video env mode cap st0 = (r, st1)" "screencaps st0 = []"
    using that by (rule stream_video_snapshots)
  have c: "size (mset (map snapshot (enumerate 0 fs))) = length fs"
    by simp
  from a b c snapshot_keys [of fs] frame_names_distinct [of "length fs"] show ?thesis
    by blast
qed

theorem snapshots_of_processed_frames_witness:
  "decoded (video_capture scenario_env (join input_dir ''clip.mp4'')) = [10, 11, 12]
   \<and> fst (process_video scenario_env ''Anime'' ''clip.mp4'' used_workspace) = None
   \<and> mset (screencaps (snd (process_video scenario_env ''Anime'' ''clip.mp4'' used_workspace))) =
       mset [(''frame_0.jpg'', File (Full 10)), (''frame_1.jpg'', File (Full 11)),
             (''frame_2.jpg'', File (Full 12))]"
proof -
  obtain r st' where p: "process_video scenario_env ''Anime'' ''clip.mp4'' used_workspace = (r, st')"
    by (cases "process_video scenario_env ''Anime'' ''clip.mp4'' used_workspace")
  then have r: "r = None"
    by (simp add: scenario_env_def used_workspace_def video_simps path_simps stream_simps
        promote_simps)
  have d: "decoded (video_capture scenario_env (join input_dir ''clip.mp4'')) = [10, 11, 12]"
    by (simp add: scenario_env_def path_simps decoded_def)
  from snapshots_of_processed_frames
    [of scenario_env "''Anime''" "''clip.mp4''" used_workspace st', THEN conjunct1] p r
  have "mset (screencaps st') =
          mset (map snapshot (enumerate 0 (decoded (video_capture scenario_env (join input_dir ''clip.mp4'')))))"
    by simp
  with d p r show ?thesis
    by (simp add: snapshot_def frame_name_def)
qed

section \<open>Regions\<close>

lemma anime_loop:
  assumes "distinct (map fst xs)"
      and "\<forall>x \<in> set xs. anime_name fc (fst x) \<notin> fst ` set (faces st)"
      and "for_each (anime_step env frame fc) xs (acc, st) = (r, acc', st')"
  shows "acc' = acc @ map (\<lambda>(i, b). join faces_dir (anime_name fc i))
                   (takeWhile (\<lambda>(i, b). \<not> empty_image (frame_shape env) (box_crop frame b))
                      (filter (\<lambda>(i, b). conf b \<ge> 0.5) xs))
         \<and> mset (faces st') = mset (faces st) + mset (map (anime_region frame fc)
                   (takeWhile (\<lambda>(i, b). \<not> empty_image (frame_shape env) (box_crop frame b))
                      (filter (\<lambda>(i, b). conf b \<ge> 0.5) xs)))
         \<and> (r = None \<or> r = Some Cv2Error)
         \<and> ((r = None) =
              (takeWhile (\<lambda>(i, b). \<not> empty_image (frame_shape env) (box_crop frame b))
                 (filter (\<lambda>(i, b). conf b \<ge> 0.5) xs) = filter (\<lambda>(i, b). conf b \<ge> 0.5) xs))"
  using assms
proof (induction xs arbitrary: acc st)
  case Nil
  then show ?case by simp
next
  case (Cons x xs)
  obtain i b where x: "x = (i, b)" by (cases x)
  from Cons.prems(1,2) x have d: "distinct (map fst xs)" and ni: "i \<notin> fst ` set xs"
    and fi: "anime_name fc i \<notin> fst ` set (faces st)"
    and fx: "\<forall>x \<in> set xs. anime_name fc (fst x) \<notin> fst ` set (faces st)"
    by auto
  show ?case
  proof (cases "conf b \<ge> 0.5")
    case False
    with Cons.prems(3) x have "for_each (anime_step env frame fc) xs (acc, st) = (r, acc', st')"
      by (simp add: anime_step_def)
    from Cons.IH [OF d fx this] False x show ?thesis by auto
  next
    case True
    show ?thesis
    proof (cases "empty_image (frame_shape env) (box_crop frame b)")
      case e: True
      with Cons.prems(3) x True have "r = Some Cv2Error" "acc' = acc" "st' = st"
        by (simp_all add: anime_step_def imwrite_empty)
      with True e x show ?thesis by simp
    next
      case ne: False
      from imwrite_fresh [OF ne fi] obtain d'
        where w: "imwrite env (anime_name fc i) (box_crop frame b) (faces st) = Inr d'"
          and md: "mset d' = add_mset (anime_name fc i, File (box_crop frame b)) (mset (faces st))"
        by blast
      let ?st1 = "st\<lparr>faces := d'\<rparr>"
      from Cons.prems(3) x True w
      have rest: "for_each (anime_step env frame fc) xs (acc @ [join faces_dir (anime_name fc i)], ?st1)
                    = (r, acc', st')"
        by (simp add: anime_step_def)
      from md have sd: "set d' = insert (anime_name fc i, File (box_crop frame b)) (set (faces st))"
        by (metis mset_eq_setD set_mset_add_mset_insert set_mset_mset)
      have "\<forall>y \<in> set xs. anime_name fc (fst y) \<notin> fst ` set (faces ?st1)"
      proof
        fix y assume y: "y \<in> set xs"
        with ni have "fst y \<noteq> i" by auto
        then have "anime_name fc (fst y) \<noteq> anime_name fc i" by (auto dest: anime_name_inj)
        with fx y sd show "anime_name fc (fst y) \<notin> fst ` set (faces ?st1)"
          by auto
      qed
      from Cons.IH [OF d this rest] True ne x md show ?thesis
        by (auto simp: anime_region_def)
    qed
  qed
qed

lemma realistic_loop:
  assumes "distinct (map fst xs)"
      and "\<forall>x \<in> set xs. realistic_name fc (fst x) \<notin> fst ` set (faces st)"
      and "for_each (realistic_step env frame fc) xs (acc, st) = (r, acc', st')"
  shows "acc' = acc @ map (\<lambda>(i, l). join faces_dir (realistic_name fc i))
                   (takeWhile (\<lambda>(i, l). \<not> empty_image (frame_shape env) (location_crop frame l)) xs)
         \<and> mset (faces st') = mset (faces st) + mset (map (realistic_region frame fc)
                   (takeWhile (\<lambda>(i, l). \<not> empty_image (frame_shape env) (location_crop frame l)) xs))
         \<and> (r = None \<or> r = Some Cv2Error)
         \<and> ((r = None) =
              (takeWhile (\<lambda>(i, l). \<not> empty_image (frame_shape env) (location_crop frame l)) xs = xs))"
  using assms
proof (induction xs arbitrary: acc st)
  case Nil
  then show ?case by simp
next
  case (Cons x xs)
  obtain i l where x: "x = (i, l)" by (cases x)
  from Cons.prems(1,2) x have d: "distinct (map fst xs)" and ni: "i \<notin> fst ` set xs"
    and fi: "realistic_name fc i \<notin> fst ` set (faces st)"
    and fx: "\<forall>x \<in> set xs. realistic_name fc (fst x) \<notin> fst ` set (faces st)"
    by auto
  show ?case
  proof (cases "empty_image (frame_shape env) (location_crop frame l)")
    case e: True
    with Cons.prems(3) x have "r = Some Cv2Error" "acc' = acc" "st' = st"
      by (simp_all add: realistic_step_def imwrite_empty)
    with e x show ?thesis by simp
  next
    case ne: False
    from imwrite_fresh [OF ne fi] obtain d'
      where w: "imwrite env (realistic_name fc i) (location_crop frame l) (faces st) = Inr d'"
        and md: "mset d' = add_mset (realistic_name fc i, File (location_crop frame l)) (mset (faces st))"
      by blast
    let ?st1 = "st\<lparr>faces := d'\<rparr>"
    from Cons.prems(3) x w
    have rest: "for_each (realistic_step env frame fc) xs (acc @ [join faces_dir (realistic_name fc i)], ?st1)
                  = (r, acc', st')"
      by (simp add: realistic_step_def)
    from md have sd: "set d' = insert (realistic_name fc i, File (location_crop frame l)) (set (faces st))"
      by (metis mset_eq_setD set_mset_add_mset_insert set_mset_mset)
    have "\<forall>y \<in> set xs. realistic_name fc (fst y) \<notin> fst ` set (faces ?st1)"
    proof
      fix y assume y: "y \<in> set xs"
      with ni have "fst y \<noteq> i" by auto
      then have "realistic_name fc (fst y) \<noteq> realistic_name fc i" by (auto dest: realistic_name_inj)
      with fx y sd show "realistic_name fc (fst y) \<notin> fst ` set (faces ?st1)"
        by auto
    qed
    from Cons.IH [OF d this rest] ne x md show ?thesis
      by (auto simp: realistic_region_def)
  qed
qed

lemma detect_faces_anime_result:
  assumes y: "yolo_model env frame = Inr boxes"
      and fresh: "\<forall>i < length boxes. anime_name fc i \<notin> fst ` set (faces st)"
  shows "mset (faces (snd (detect_faces_anime env frame fc st)))
           = mset (faces st) + mset (map (anime_region frame fc) (written_boxes env frame boxes))
         \<and> (written_boxes env frame boxes = accepted boxes \<longrightarrow>
              fst (detect_faces_anime env frame fc st)
                = Inr (map (\<lambda>(i, b). join faces_dir (anime_name fc i)) (accepted boxes)))
         \<and> (written_boxes env frame boxes \<noteq> accepted boxes \<longrightarrow>
              fst (detect_faces_anime env frame fc st) = Inl Cv2Error)"
proof -
  obtain r acc' st' where run:
    "for_each (anime_step env frame fc) (enumerate 0 boxes) ([], st) = (r, acc', st')"
    by (cases "for_each (anime_step env frame fc) (enumerate 0 boxes) ([], st)") auto
  have d: "distinct (map fst (enumerate 0 boxes))" by simp
  have f: "\<forall>x \<in> set (enumerate 0 boxes). anime_name fc (fst x) \<notin> fst ` set (faces st)"
    using fresh by (auto simp: in_set_enumerate_eq)
  note l = anime_loop [OF d f run, folded accepted_def, folded written_boxes_def]
  show ?thesis
  proof (cases r)
    case None
    with l y run show ?thesis by (simp add: detect_faces_anime_def)
  next
    case (Some e)
    with l have "e = Cv2Error" "written_boxes env frame boxes \<noteq> accepted boxes" by auto
    with l y run Some show ?thesis by (simp add: detect_faces_anime_def)
  qed
qed

lemma detect_faces_realistic_result:
  assumes y: "face_locations env frame = Inr locs"
      and fresh: "\<forall>i < length locs. realistic_name fc i \<notin> fst ` set (faces st)"
  shows "mset (faces (snd (detect_faces_realistic env frame fc st)))
           = mset (faces st) + mset (map (realistic_region frame fc) (written_locations env frame locs))
         \<and> (written_locations env frame locs = enumerate 0 locs \<longrightarrow>
              fst (detect_faces_realistic env frame fc st)
                = Inr (map (\<lambda>(i, l). join faces_dir (realistic_name fc i)) (enumerate 0 locs)))
         \<and> (written_locations env frame locs \<noteq> enumerate 0 locs \<longrightarrow>
              fst (detect_faces_realistic env frame fc st) = Inl Cv2Error)"
proof -
  obtain r acc' st' where run:
    "for_each (realistic_step env frame fc) (enumerate 0 locs) ([], st) = (r, acc', st')"
    by (cases "for_each (realistic_step env frame fc) (enumerate 0 locs) ([], st)") auto
  have d: "distinct (map fst (enumerate 0 locs))" by simp
  have f: "\<forall>x \<in> set (enumerate 0 locs). realistic_name fc (fst x) \<notin> fst ` set (faces st)"
    using fresh by (auto simp: in_set_enumerate_eq)
  note l = realistic_loop [OF d f run, folded written_locations_def]
  show ?thesis
  proof (cases r)
    case None
    with l y run show ?thesis by (simp add: detect_faces_realistic_def)
  next
    case (Some e)
    with l have "e = Cv2Error" "written_locations env frame locs \<noteq> enumerate 0 locs" by auto
    with l y run Some show ?thesis by (simp add: detect_faces_realistic_def)
  qed
qed

lemma length_accepted:
  "length (accepted boxes) = length (filter (\<lambda>b. conf b \<ge> 0.5) boxes)"
proof -
  have "length (filter (\<lambda>(i, b). conf b \<ge> 0.5) (enumerate n boxes))
          = length (filter (\<lambda>b. conf b \<ge> 0.5) boxes)" for n
    by (induction boxes arbitrary: n) auto
  then show ?thesis by (simp add: accepted_def)
qed

lemma length_written_boxes:
  "length (written_boxes env frame boxes) \<le> length (accepted boxes)
   \<and> (written_boxes env frame boxes \<noteq> accepted boxes \<longrightarrow>
        length (written_boxes env frame boxes) < length (accepted boxes))"
proof -
  let ?P = "\<lambda>(i, b). \<not> empty_image (frame_shape env) (box_crop frame b)"
  have a: "length (takeWhile ?P (accepted boxes)) \<le> length (accepted boxes)"
    by (rule length_takeWhile_le)
  have "takeWhile ?P (accepted boxes) = accepted boxes"
    if "length (takeWhile ?P (accepted boxes)) = length (accepted boxes)"
    using that takeWhile_eq_take [of ?P "accepted boxes"] by simp
  with a show ?thesis
    unfolding written_boxes_def by (metis le_neq_implies_less)
qed

section \<open>Regions of a whole video\<close>

lemma anime_regions_names:
  assumes "mset d = mset (concat (map (anime_regions env) (enumerate 0 pre)))"
      and "name \<in> fst ` set d"
  shows "\<exists>m < length pre. \<exists>j. name = anime_name m j"
proof -
  from assms(1) have "set d = set (concat (map (anime_regions env) (enumerate 0 pre)))"
    by (rule mset_eq_setD)
  with assms(2) show ?thesis
    by (fastforce simp: anime_regions_def anime_region_def in_set_enumerate_eq
        split: sum.splits prod.splits)
qed

lemma detect_anime_regions:
  assumes dt: "detect env ''Anime'' f n st = (None, st2)"
      and fresh: "\<forall>i. anime_name n i \<notin> fst ` set (faces st)"
  shows "mset (faces st2) = mset (faces st) + mset (anime_regions env (n, f))"
proof -
  from dt obtain boxes where b: "yolo_model env f = Inr boxes"
    by (cases "yolo_model env f") (auto simp: detect_def detect_faces_anime_def)
  from fresh have fr: "\<forall>i < length boxes. anime_name n i \<notin> fst ` set (faces st)" by simp
  note res = detect_faces_anime_result [OF b fr]
  from dt have ok: "\<exists>p. fst (detect_faces_anime env f n st) = Inr p"
    and s2: "st2 = snd (detect_faces_anime env f n st)"
    by (auto simp: detect_def split: prod.splits sum.splits)
  with res have "written_boxes env f boxes = accepted boxes" by auto
  with res s2 b show ?thesis by (simp add: anime_regions_def)
qed

lemma read_frames_regions:
  "read_frames env ''Anime'' rs (length pre) st = (None, st') \<Longrightarrow>
   mset (faces st) = mset (concat (map (anime_regions env) (enumerate 0 pre))) \<Longrightarrow>
   mset (faces st') = mset (concat (map (anime_regions env) (enumerate 0 (pre @ decoded_frames rs))))"
proof (induction rs arbitrary: pre st)
  case Nil
  then show ?case by simp
next
  case (Cons x rs)
  show ?case
  proof (cases x)
    case DecodeFail
    with Cons.prems show ?thesis by simp
  next
    case (Frame f)
    let ?n = "length pre"
    from Cons.prems(1) Frame obtain d
      where w: "imwrite env (frame_name ?n) (Full f) (screencaps st) = Inr d"
      by (cases "imwrite env (frame_name ?n) (Full f) (screencaps st)") auto
    let ?st1 = "st\<lparr>screencaps := d\<rparr>"
    obtain r2 st2 where dt: "detect env ''Anime'' f ?n ?st1 = (r2, st2)"
      by (cases "detect env ''Anime'' f ?n ?st1")
    with Cons.prems(1) Frame w have r2: "r2 = None"
      and rest: "read_frames env ''Anime'' rs (length (pre @ [f])) st2 = (None, st')"
      by (auto split: option.splits)
    have fresh: "\<forall>i. anime_name ?n i \<notin> fst ` set (faces ?st1)"
    proof (intro allI notI)
      fix i assume "anime_name ?n i \<in> fst ` set (faces ?st1)"
      with anime_regions_names [OF Cons.prems(2), of "anime_name ?n i"]
      obtain m j where "m < ?n" "anime_name ?n i = anime_name m j" by auto
      with anime_name_frame_inj [of ?n i m j] show False by simp
    qed
    from detect_anime_regions [OF dt [unfolded r2] fresh] Cons.prems(2)
    have "mset (faces st2) = mset (concat (map (anime_regions env) (enumerate 0 (pre @ [f]))))"
      by (simp add: enumerate_append_eq)
    from Cons.IH [OF rest this] Frame show ?thesis by simp
  qed
qed

lemma process_video_regions:
  assumes "process_video env ''Anime'' v st = (None, st')"
  shows "mset (faces st') = mset (concat (map (anime_regions env)
           (enumerate 0 (decoded (video_capture env (join input_dir v))))))"
proof -
  let ?st0 = "print (CHR 0x0A # ''Processing video: '' @ v) st"
  let ?cap = "video_capture env (join input_dir v)"
  obtain r1 st1 where r1: "reset ?st0 = (r1, st1)" by (cases "reset ?st0")
  obtain r2 st2 where r2: "stream_video env ''Anime'' ?cap st1 = (r2, st2)"
    by (cases "stream_video env ''Anime'' ?cap st1")
  from assms r1 r2 have n: "r1 = None" "r2 = None" and p: "promote v st2 = (None, st')"
    by (auto simp: process_video_def split: option.splits)
  from r1 n reset_ok_empty [of ?st0] have e: "faces st1 = []" by simp
  have "mset (faces st2) = mset (concat (map (anime_regions env) (enumerate 0 (decoded ?cap))))"
  proof (cases ?cap)
    case Unopened
    with r2 e show ?thesis by (simp add: stream_video_def decoded_def)
  next
    case (Opened rs)
    with r2 n have "read_frames env ''Anime'' rs (length ([] :: 'a list)) st1 = (None, st2)"
      by (simp add: stream_video_def)
    from read_frames_regions [OF this] e Opened show ?thesis
      by (simp add: decoded_def)
  qed
  with promote_workspace [OF p] show ?thesis by simp
qed

lemma length_anime_regions:
  "yolo_model env frame = Inr boxes \<Longrightarrow>
   length (anime_regions env (n, frame)) = length (filter (\<lambda>b. conf b \<ge> 0.5) boxes)"
  using length_accepted [of boxes] by (simp add: anime_regions_def)

text \<open>
  C3, as the claim states it, fails: of three candidates of confidence at least 0.5, the
  second with corners 4.2 and 4.9 that become the same column, the detector writes the
  region of the first and then raises in cv2.imwrite on the empty slice of the second.
\<close>

theorem region_count_counterexample:
  "yolo_model thin_box_env 11 =
     Inr [\<lparr>xyxy = (0, 0, 4, 4), conf = 0.8\<rparr>, \<lparr>xyxy = (4.2, 0, 4.9, 4), conf = 0.9\<rparr>,
          \<lparr>xyxy = (2, 2, 6, 6), conf = 0.7\<rparr>]
   \<and> detect_faces_anime thin_box_env 11 1 empty_state =
       (Inl Cv2Error, empty_state\<lparr>faces := [(''anime_face_1_0.jpg'', File (Crop 11 0 4 0 4))]\<rparr>)"
  by (simp add: thin_box_env_def empty_state_def write_simps detector_simps)

text \<open>
  C3, amended. For a frame given to the bounding-box detector, on a region container
  holding none of the frame's region names, the candidates below 0.5 are dropped without
  error and the detector writes the candidates of confidence at least 0.5, one of
  confidence 0.5 included, in their order up to the first whose slice of the frame is
  empty. If no such slice is empty it returns without error, and the number of region
  images written, and of paths returned, is the number of candidates of confidence at
  least 0.5; otherwise cv2.imwrite raises at that candidate and fewer are written. In a
  video that is processed in this mode without error every frame has all of them
  written. The confidence is taken as the real number the float stands for, and the
  container is compared as a collection of entries.
\<close>

theorem anime_regions_by_threshold:
  "(yolo_model env frame = Inr boxes
      \<and> (\<forall>i < length boxes. anime_name fc i \<notin> fst ` set (faces st)) \<longrightarrow>
      mset (faces (snd (detect_faces_anime env frame fc st)))
        = mset (faces st) + mset (map (anime_region frame fc) (written_boxes env frame boxes))
      \<and> length (faces (snd (detect_faces_anime env frame fc st)))
          = length (faces st) + length (written_boxes env frame boxes)
      \<and> (written_boxes env frame boxes = accepted boxes \<longrightarrow>
           fst (detect_faces_anime env frame fc st)
             = Inr (map (\<lambda>(i, b). join faces_dir (anime_name fc i)) (accepted boxes))
           \<and> length (written_boxes env frame boxes) = length (filter (\<lambda>b. conf b \<ge> 0.5) boxes))
      \<and> (written_boxes env frame boxes \<noteq> accepted boxes \<longrightarrow>
           fst (detect_faces_anime env frame fc st) = Inl Cv2Error
           \<and> length (written_boxes env frame boxes) < length (filter (\<lambda>b. conf b \<ge> 0.5) boxes)))
   \<and> (process_video env ''Anime'' v st0 = (None, st1) \<longrightarrow>
        mset (faces st1) = mset (concat (map (anime_regions env)
                      (enumerate 0 (decoded (video_capture env (join input_dir v)))))))
   \<and> (yolo_model env frame = Inr boxes \<longrightarrow>
        length (anime_regions env (n, frame)) = length (filter (\<lambda>b. conf b \<ge> 0.5) boxes))"
proof -
  have a: "mset (faces (snd (detect_faces_anime env frame fc st)))
        = mset (faces st) + mset (map (anime_region frame fc) (written_boxes env frame boxes))
      \<and> length (faces (snd (detect_faces_anime env frame fc st)))
          = length (faces st) + length (written_boxes env frame boxes)
      \<and> (written_boxes env frame boxes = accepted boxes \<longrightarrow>
           fst (detect_faces_anime env frame fc st)
             = Inr (map (\<lambda>(i, b). join faces_dir (anime_name fc i)) (accepted boxes))
           \<and> length (written_boxes env frame boxes) = length (filter (\<lambda>b. conf b \<ge> 0.5) boxes))
      \<and> (written_boxes env frame boxes \<noteq> accepted boxes \<longrightarrow>
           fst (detect_faces_anime env frame fc st) = Inl Cv2Error
           \<and> length (written_boxes env frame boxes) < length (filter (\<lambda>b. conf b \<ge> 0.5) boxes))"
    if y: "yolo_model env frame = Inr boxes"
      and f: "\<forall>i < length boxes. anime_name fc i \<notin> fst ` set (faces st)"
  proof -
    note res = detect_faces_anime_result [OF y f]
    from res have "size (mset (faces (snd (detect_faces_anime env frame fc st))))
        = size (mset (faces st) + mset (map (anime_region frame fc) (written_boxes env frame boxes)))"
      by simp
    then have len: "length (faces (snd (detect_faces_anime env frame fc st)))
          = length (faces st) + length (written_boxes env frame boxes)"
      by simp
    from res len length_written_boxes [of env frame boxes] length_accepted [of boxes]
    show ?thesis by simp
  qed
  from a process_video_regions [of env v st0 st1] length_anime_regions [of env frame boxes n]
  show ?thesis by blast
qed

theorem anime_regions_by_threshold_witness:
  "yolo_model scenario_env 11 =
     Inr [\<lparr>xyxy = (0, 0, 4, 4), conf = 0.9\<rparr>, \<lparr>xyxy = (4, 0, 8, 4), conf = 0.3\<rparr>,
          \<lparr>xyxy = (2, 2, 6, 6), conf = 0.5\<rparr>]
   \<and> fst (detect_faces_anime scenario_env 11 1 empty_state) =
       Inr [''/ScreenCap/Work/faces/anime_face_1_0.jpg'',
            ''/ScreenCap/Work/faces/anime_face_1_2.jpg'']
   \<and> mset (faces (snd (detect_faces_anime scenario_env 11 1 empty_state))) =
       mset [(''anime_face_1_0.jpg'', File (Crop 11 0 4 0 4)),
             (''anime_face_1_2.jpg'', File (Crop 11 2 6 2 6))]
   \<and> length (faces (snd (detect_faces_anime scenario_env 11 1 empty_state))) = 2
   \<and> fst (detect_faces_anime thin_box_env 11 1 empty_state) = Inl Cv2Error
   \<and> length (faces (snd (detect_faces_anime thin_box_env 11 1 empty_state))) = 1
   \<and> fst (process_video scenario_env ''Anime'' ''clip.mp4'' used_workspace) = None
   \<and> mset (faces (snd (process_video scenario_env ''Anime'' ''clip.mp4'' used_workspace))) =
       mset [(''anime_face_1_0.jpg'', File (Crop 11 0 4 0 4)),
             (''anime_face_1_2.jpg'', File (Crop 11 2 6 2 6))]"
proof -
  let ?boxes = "[\<lparr>xyxy = (0, 0, 4, 4), conf = 0.9\<rparr>, \<lparr>xyxy = (4, 0, 8, 4), conf = 0.3\<rparr>,
                 \<lparr>xyxy = (2, 2, 6, 6), conf = 0.5\<rparr>]"
  let ?thin = "[\<lparr>xyxy = (0, 0, 4, 4), conf = 0.8\<rparr>, \<lparr>xyxy = (4.2, 0, 4.9, 4), conf = 0.9\<rparr>,
                \<lparr>xyxy = (2, 2, 6, 6), conf = 0.7\<rparr>]"
  have h1: "yolo_model scenario_env 11 = Inr ?boxes"
    by (simp add: scenario_env_def)
  have h2: "\<forall>i < length ?boxes. anime_name 1 i \<notin> fst ` set (faces empty_state)"
    by (simp add: empty_state_def)
  have e: "faces empty_state = []"
    by (simp add: empty_state_def)
  have acc: "accepted ?boxes = [(0, \<lparr>xyxy = (0, 0, 4, 4), conf = 0.9\<rparr>),
                                (2, \<lparr>xyxy = (2, 2, 6, 6), conf = 0.5\<rparr>)]"
    by (simp add: accepted_def enumerate_eq_zip)
  have "written_boxes scenario_env 11 ?boxes = [(0, \<lparr>xyxy = (0, 0, 4, 4), conf = 0.9\<rparr>),
                                                (2, \<lparr>xyxy = (2, 2, 6, 6), conf = 0.5\<rparr>)]"
    unfolding written_boxes_def acc
    by (simp add: scenario_env_def empty_image_def slice_len_def slice_bound_def box_crop_def
        py_int_def)
  with acc have wr: "written_boxes scenario_env 11 ?boxes = accepted ?boxes"
    by simp
  from anime_regions_by_threshold [of scenario_env 11 ?boxes 1 empty_state, THEN conjunct1] h1 h2 wr
  have a: "mset (faces (snd (detect_faces_anime scenario_env 11 1 empty_state)))
        = mset (faces empty_state) + mset (map (anime_region 11 1) (accepted ?boxes))
      \<and> length (faces (snd (detect_faces_anime scenario_env 11 1 empty_state)))
          = length (faces empty_state) + length (accepted ?boxes)
      \<and> fst (detect_faces_anime scenario_env 11 1 empty_state)
             = Inr (map (\<lambda>(i, b). join faces_dir (anime_name 1 i)) (accepted ?boxes))"
    by simp
  have g1: "yolo_model thin_box_env 11 = Inr ?thin"
    by (simp add: thin_box_env_def)
  have g2: "\<forall>i < length ?thin. anime_name 1 i \<notin> fst ` set (faces empty_state)"
    by (simp add: empty_state_def)
  have tacc: "accepted ?thin = [(0, \<lparr>xyxy = (0, 0, 4, 4), conf = 0.8\<rparr>),
                                (1, \<lparr>xyxy = (4.2, 0, 4.9, 4), conf = 0.9\<rparr>),
                                (2, \<lparr>xyxy = (2, 2, 6, 6), conf = 0.7\<rparr>)]"
    by (simp add: accepted_def enumerate_eq_zip)
  have twr: "written_boxes thin_box_env 11 ?thin = [(0, \<lparr>xyxy = (0, 0, 4, 4), conf = 0.8\<rparr>)]"
    unfolding written_boxes_def tacc
    by (simp add: thin_box_env_def empty_image_def slice_len_def slice_bound_def box_crop_def
        py_int_def)
  have ne: "written_boxes thin_box_env 11 ?thin \<noteq> accepted ?thin"
    unfolding twr tacc by simp
  from anime_regions_by_threshold [of thin_box_env 11 ?thin 1 empty_state, THEN conjunct1] g1 g2 ne
  have b: "fst (detect_faces_anime thin_box_env 11 1 empty_state) = Inl Cv2Error
      \<and> length (faces (snd (detect_faces_anime thin_box_env 11 1 empty_state)))
          = length (faces empty_state) + length (written_boxes thin_box_env 11 ?thin)"
    by simp
  obtain r st' where p: "process_video scenario_env ''Anime'' ''clip.mp4'' used_workspace = (r, st')"
    by (cases "process_video scenario_env ''Anime'' ''clip.mp4'' used_workspace")
  then have r: "r = None"
    by (simp add: scenario_env_def used_workspace_def video_simps path_simps stream_simps
        promote_simps)
  have d: "decoded (video_capture scenario_env (join input_dir ''clip.mp4'')) = [10, 11, 12]"
    by (simp add: scenario_env_def path_simps decoded_def)
  from anime_regions_by_threshold
    [where env = scenario_env and v = "''clip.mp4''" and ?st0.0 = used_workspace and ?st1.0 = st',
      THEN conjunct2, THEN conjunct1] p r
  have "mset (faces st') = mset (concat (map (anime_regions scenario_env)
          (enumerate 0 (decoded (video_capture scenario_env (join input_dir ''clip.mp4''))))))"
    by simp
  with d have c: "mset (faces st') = mset [(''anime_face_1_0.jpg'', File (Crop 11 0 4 0 4)),
                                   (''anime_face_1_2.jpg'', File (Crop 11 2 6 2 6))]"
    by (simp add: anime_regions_def scenario_env_def accepted_def enumerate_eq_zip anime_region_def
        anime_name_def box_crop_def py_int_def)
  from a b c p r h1 e acc twr show ?thesis
    by (simp add: anime_region_def anime_name_def box_crop_def py_int_def path_simps)
qed

section \<open>Ordinals of the regions\<close>

lemma enumerate_index: "enumerate 0 xs = map (\<lambda>i. (i, xs ! i)) [0..<length xs]"
  by (rule nth_equalityI) (simp_all add: nth_enumerate_eq)

lemma accepted_index:
  "accepted boxes
     = map (\<lambda>i. (i, boxes ! i)) (filter (\<lambda>i. conf (boxes ! i) \<ge> 0.5) [0..<length boxes])"
proof -
  have "(\<lambda>(i, b). conf b \<ge> 0.5) \<circ> (\<lambda>i. (i, boxes ! i)) = (\<lambda>i. conf (boxes ! i) \<ge> 0.5)"
    by (rule ext) simp
  then show ?thesis
    by (simp only: accepted_def enumerate_index [of boxes] filter_map)
qed

lemma accepted_by_index:
  "map (\<lambda>(i, b). g i) (accepted boxes)
     = map g (filter (\<lambda>i. conf (boxes ! i) \<ge> 0.5) [0..<length boxes])"
proof -
  have "(\<lambda>(i, b). g i) \<circ> (\<lambda>i. (i, boxes ! i)) = g"
    by (rule ext) simp
  then show ?thesis
    by (simp only: accepted_index map_map)
qed

lemma enumerate_by_index:
  "map (\<lambda>(i, l). g i) (enumerate 0 xs) = map g [0..<length xs]"
proof -
  have "(\<lambda>(i, l). g i) \<circ> (\<lambda>i. (i, xs ! i)) = g"
    by (rule ext) simp
  then show ?thesis
    by (simp only: enumerate_index [of xs] map_map)
qed

lemma accepted_member:
  "(i, b) \<in> set (accepted boxes) \<Longrightarrow> i < length boxes \<and> b = boxes ! i \<and> conf b \<ge> 0.5"
  by (auto simp: accepted_def in_set_enumerate_eq)

lemma written_boxes_member:
  "(i, b) \<in> set (written_boxes env frame boxes) \<Longrightarrow>
   i < length boxes \<and> b = boxes ! i \<and> conf b \<ge> 0.5"
  unfolding written_boxes_def by (blast dest: set_takeWhileD accepted_member)

lemma takeWhile_enumerate_fst:
  "map fst (takeWhile P (enumerate 0 xs)) = [0..<length (takeWhile P (enumerate 0 xs))]"
proof -
  let ?m = "length (takeWhile P (enumerate 0 xs))"
  have le: "?m \<le> length xs"
    using length_takeWhile_le [of P "enumerate 0 xs"] by simp
  have "takeWhile P (enumerate 0 xs) = take ?m (enumerate 0 xs)"
    by (rule takeWhile_eq_take)
  then have "map fst (takeWhile P (enumerate 0 xs)) = map fst (take ?m (enumerate 0 xs))"
    by (rule arg_cong)
  also have "\<dots> = take ?m (map fst (enumerate 0 xs))"
    by (rule take_map [symmetric])
  also have "\<dots> = take ?m [0..<length xs]"
    by (simp only: map_fst_enumerate add_0)
  also have "\<dots> = [0..<?m]"
    using le by (simp add: min_def)
  finally show ?thesis .
qed

lemma written_locations_names:
  "map (\<lambda>(i, l). realistic_name fc i) (written_locations env frame locs)
     = map (realistic_name fc) [0..<length (written_locations env frame locs)]"
proof -
  have "map (\<lambda>(i, l). realistic_name fc i) (written_locations env frame locs)
          = map (realistic_name fc) (map fst (written_locations env frame locs))"
    by (simp add: case_prod_unfold)
  also have "map fst (written_locations env frame locs)
               = [0..<length (written_locations env frame locs)]"
    unfolding written_locations_def by (rule takeWhile_enumerate_fst)
  finally show ?thesis .
qed

lemma length_written_locations: "length (written_locations env frame locs) \<le> length locs"
  using length_takeWhile_le
    [of "\<lambda>(i, l). \<not> empty_image (frame_shape env) (location_crop frame l)" "enumerate 0 locs"]
  by (simp add: written_locations_def)

lemma keys_of_sum:
  "mset d' = mset d + mset (map g xs) \<Longrightarrow>
   mset (map fst d') = mset (map fst d) + mset (map (fst \<circ> g) xs)"
proof -
  assume "mset d' = mset d + mset (map g xs)"
  then have "image_mset fst (mset d') = image_mset fst (mset d + mset (map g xs))"
    by simp
  then show ?thesis by (simp add: multiset.map_comp)
qed

text \<open>
  C9. The bounding-box detector names each region it writes by the index its candidate
  has among all candidates of the frame, before the threshold is applied: the files it
  adds to a region container holding none of the frame's names, and the paths it
  returns, carry the indices i with confidence at least 0.5, in order, which need not be
  contiguous, as for the frame whose candidates have confidence 0.9, 0.3 and 0.5. The
  generic detector names the regions it writes 0 to k-1, k of the locations found; both
  write all of them unless cv2.imwrite raises on an empty slice, and up to that one then.
\<close>

theorem region_ordinals:
  "(yolo_model env frame = Inr boxes
      \<and> (\<forall>i < length boxes. anime_name fc i \<notin> fst ` set (faces st)) \<longrightarrow>
      mset (map fst (faces (snd (detect_faces_anime env frame fc st))))
        = mset (map fst (faces st))
          + mset (map (\<lambda>(i, b). anime_name fc i) (written_boxes env frame boxes))
      \<and> (\<forall>(i, b) \<in> set (written_boxes env frame boxes).
            i < length boxes \<and> b = boxes ! i \<and> conf b \<ge> 0.5)
      \<and> (written_boxes env frame boxes = accepted boxes \<longrightarrow>
           fst (detect_faces_anime env frame fc st)
             = Inr (map (\<lambda>i. join faces_dir (anime_name fc i))
                     (filter (\<lambda>i. conf (boxes ! i) \<ge> 0.5) [0..<length boxes]))
           \<and> map (\<lambda>(i, b). anime_name fc i) (written_boxes env frame boxes)
               = map (anime_name fc) (filter (\<lambda>i. conf (boxes ! i) \<ge> 0.5) [0..<length boxes])))
   \<and> (face_locations env frame = Inr locs
        \<and> (\<forall>i < length locs. realistic_name fc i \<notin> fst ` set (faces st)) \<longrightarrow>
      mset (map fst (faces (snd (detect_faces_realistic env frame fc st))))
        = mset (map fst (faces st))
          + mset (map (realistic_name fc) [0..<length (written_locations env frame locs)])
      \<and> length (written_locations env frame locs) \<le> length locs
      \<and> (written_locations env frame locs = enumerate 0 locs \<longrightarrow>
           fst (detect_faces_realistic env frame fc st)
             = Inr (map (\<lambda>i. join faces_dir (realistic_name fc i)) [0..<length locs])
           \<and> length (written_locations env frame locs) = length locs))
   \<and> mset (map fst (faces (snd (detect_faces_anime scenario_env 11 5 empty_state))))
       = mset [''anime_face_5_0.jpg'', ''anime_face_5_2.jpg'']"
proof -
  have fa: "fst \<circ> anime_region frame fc = (\<lambda>(i, b). anime_name fc i)"
    by (auto simp: anime_region_def)
  have fr: "fst \<circ> realistic_region frame fc = (\<lambda>(i, l). realistic_name fc i)"
    by (auto simp: realistic_region_def)
  have a1: "mset (map fst (faces (snd (detect_faces_anime env frame fc st))))
        = mset (map fst (faces st))
          + mset (map (\<lambda>(i, b). anime_name fc i) (written_boxes env frame boxes))"
    if y: "yolo_model env frame = Inr boxes"
      and f: "\<forall>i < length boxes. anime_name fc i \<notin> fst ` set (faces st)"
    using keys_of_sum [OF detect_faces_anime_result [OF y f, THEN conjunct1]]
    by (simp only: fa)
  have a2: "\<forall>(i, b) \<in> set (written_boxes env frame boxes).
            i < length boxes \<and> b = boxes ! i \<and> conf b \<ge> 0.5"
    using written_boxes_member [of _ _ env frame boxes] by blast
  have a3: "fst (detect_faces_anime env frame fc st)
             = Inr (map (\<lambda>i. join faces_dir (anime_name fc i))
                     (filter (\<lambda>i. conf (boxes ! i) \<ge> 0.5) [0..<length boxes]))
           \<and> map (\<lambda>(i, b). anime_name fc i) (written_boxes env frame boxes)
               = map (anime_name fc) (filter (\<lambda>i. conf (boxes ! i) \<ge> 0.5) [0..<length boxes])"
    if y: "yolo_model env frame = Inr boxes"
      and f: "\<forall>i < length boxes. anime_name fc i \<notin> fst ` set (faces st)"
      and w: "written_boxes env frame boxes = accepted boxes"
  proof -
    from detect_faces_anime_result [OF y f] w
    have "fst (detect_faces_anime env frame fc st)
            = Inr (map (\<lambda>(i, b). join faces_dir (anime_name fc i)) (accepted boxes))"
      by blast
    then show ?thesis
      by (simp only: w accepted_by_index [of "\<lambda>i. join faces_dir (anime_name fc i)" boxes]
          accepted_by_index [of "anime_name fc" boxes] simp_thms)
  qed
  have b1: "mset (map fst (faces (snd (detect_faces_realistic env frame fc st))))
        = mset (map fst (faces st))
          + mset (map (realistic_name fc) [0..<length (written_locations env frame locs)])"
    if y: "face_locations env frame = Inr locs"
      and f: "\<forall>i < length locs. realistic_name fc i \<notin> fst ` set (faces st)"
    using keys_of_sum [OF detect_faces_realistic_result [OF y f, THEN conjunct1]]
    by (simp only: fr written_locations_names)
  have b2: "length (written_locations env frame locs) \<le> length locs"
    by (rule length_written_locations)
  have b3: "fst (detect_faces_realistic env frame fc st)
             = Inr (map (\<lambda>i. join faces_dir (realistic_name fc i)) [0..<length locs])
           \<and> length (written_locations env frame locs) = length locs"
    if y: "face_locations env frame = Inr locs"
      and f: "\<forall>i < length locs. realistic_name fc i \<notin> fst ` set (faces st)"
      and w: "written_locations env frame locs = enumerate 0 locs"
  proof -
    from detect_faces_realistic_result [OF y f] w
    have "fst (detect_faces_realistic env frame fc st)
            = Inr (map (\<lambda>(i, l). join faces_dir (realistic_name fc i)) (enumerate 0 locs))"
      by blast
    then have "fst (detect_faces_realistic env frame fc st)
             = Inr (map (\<lambda>i. join faces_dir (realistic_name fc i)) [0..<length locs])"
      by (simp only: enumerate_by_index [of "\<lambda>i. join faces_dir (realistic_name fc i)" locs])
    moreover have "length (written_locations env frame locs) = length locs"
      by (simp only: w length_enumerate)
    ultimately show ?thesis by (rule conjI)
  qed
  have c: "mset (map fst (faces (snd (detect_faces_anime scenario_env 11 5 empty_state))))
       = mset [''anime_face_5_0.jpg'', ''anime_face_5_2.jpg'']"
    by (simp add: scenario_env_def empty_state_def write_simps detector_simps)
  show ?thesis
  proof (intro conjI)
    show "yolo_model env frame = Inr boxes
      \<and> (\<forall>i < length boxes. anime_name fc i \<notin> fst ` set (faces st)) \<longrightarrow>
      mset (map fst (faces (snd (detect_faces_anime env frame fc st))))
        = mset (map fst (faces st))
          + mset (map (\<lambda>(i, b). anime_name fc i) (written_boxes env frame boxes))
      \<and> (\<forall>(i, b) \<in> set (written_boxes env frame boxes).
            i < length boxes \<and> b = boxes ! i \<and> conf b \<ge> 0.5)
      \<and> (written_boxes env frame boxes = accepted boxes \<longrightarrow>
           fst (detect_faces_anime env frame fc st)
             = Inr (map (\<lambda>i. join faces_dir (anime_name fc i))
                     (filter (\<lambda>i. conf (boxes ! i) \<ge> 0.5) [0..<length boxes]))
           \<and> map (\<lambda>(i, b). anime_name fc i) (written_boxes env frame boxes)
               = map (anime_name fc) (filter (\<lambda>i. conf (boxes ! i) \<ge> 0.5) [0..<length boxes]))"
    proof (intro impI conjI; elim conjE)
      assume y: "yolo_model env frame = Inr boxes"
        and f: "\<forall>i < length boxes. anime_name fc i \<notin> fst ` set (faces st)"
      from a1 [OF y f] show "mset (map fst (faces (snd (detect_faces_anime env frame fc st))))
        = mset (map fst (faces st))
          + mset (map (\<lambda>(i, b). anime_name fc i) (written_boxes env frame boxes))" .
      from a2 show "\<forall>(i, b) \<in> set (written_boxes env frame boxes).
            i < length boxes \<and> b = boxes ! i \<and> conf b \<ge> 0.5" .
      assume w: "written_boxes env frame boxes = accepted boxes"
      from a3 [OF y f w] show "fst (detect_faces_anime env frame fc st)
             = Inr (map (\<lambda>i. join faces_dir (anime_name fc i))
                     (filter (\<lambda>i. conf (boxes ! i) \<ge> 0.5) [0..<length boxes]))"
        by (rule conjunct1)
      from a3 [OF y f w] show "map (\<lambda>(i, b). anime_name fc i) (written_boxes env frame boxes)
               = map (anime_name fc) (filter (\<lambda>i. conf (boxes ! i) \<ge> 0.5) [0..<length boxes])"
        by (rule conjunct2)
    qed
  next
    show "face_locations env frame = Inr locs
        \<and> (\<forall>i < length locs. realistic_name fc i \<notin> fst ` set (faces st)) \<longrightarrow>
      mset (map fst (faces (snd (detect_faces_realistic env frame fc st))))
        = mset (map fst (faces st))
          + mset (map (realistic_name fc) [0..<length (written_locations env frame locs)])
      \<and> length (written_locations env frame locs) \<le> length locs
      \<and> (written_locations env frame locs = enumerate 0 locs \<longrightarrow>
           fst (detect_faces_realistic env frame fc st)
             = Inr (map (\<lambda>i. join faces_dir (realistic_name fc i)) [0..<length locs])
           \<and> length (written_locations env frame locs) = length locs)"
    proof (intro impI conjI; elim conjE)
      assume y: "face_locations env frame = Inr locs"
        and f: "\<forall>i < length locs. realistic_name fc i \<notin> fst ` set (faces st)"
      from b1 [OF y f] show "mset (map fst (faces (snd (detect_faces_realistic env frame fc st))))
        = mset (map fst (faces st))
          + mset (map (realistic_name fc) [0..<length (written_locations env frame locs)])" .
      from b2 show "length (written_locations env frame locs) \<le> length locs" .
      assume w: "written_locations env frame locs = enumerate 0 locs"
      from b3 [OF y f w] show "fst (detect_faces_realistic env frame fc st)
             = Inr (map (\<lambda>i. join faces_dir (realistic_name fc i)) [0..<length locs])"
        by (rule conjunct1)
      from b3 [OF y f w] show "length (written_locations env frame locs) = length locs"
        by (rule conjunct2)
    qed
  next
    from c show "mset (map fst (faces (snd (detect_faces_anime scenario_env 11 5 empty_state))))
       = mset [''anime_face_5_0.jpg'', ''anime_face_5_2.jpg'']" .
  qed
qed

theorem region_ordinals_witness:
  "fst (detect_faces_anime scenario_env 11 5 empty_state) =
     Inr [''/ScreenCap/Work/faces/anime_face_5_0.jpg'', ''/ScreenCap/Work/faces/anime_face_5_2.jpg'']
   \<and> mset (map fst (faces (snd (detect_faces_anime scenario_env 11 5 empty_state)))) =
       mset [''anime_face_5_0.jpg'', ''anime_face_5_2.jpg'']
   \<and> fst (detect_faces_realistic scenario_env 11 5 empty_state) =
       Inr [''/ScreenCap/Work/faces/realistic_face_5_0.jpg'',
            ''/ScreenCap/Work/faces/realistic_face_5_1.jpg'']
   \<and> mset (map fst (faces (snd (detect_faces_realistic scenario_env 11 5 empty_state)))) =
       mset [''realistic_face_5_0.jpg'', ''realistic_face_5_1.jpg'']
   \<and> face_locations thin_box_env 11 = Inr [(0, 4, 4, 0), (4, 4, 4, 0), (2, 6, 6, 2)]
   \<and> mset (map fst (faces (snd (detect_faces_realistic thin_box_env 11 5 empty_state)))) =
       mset [''realistic_face_5_0.jpg'']"
proof -
  let ?boxes = "[\<lparr>xyxy = (0, 0, 4, 4), conf = 0.9\<rparr>, \<lparr>xyxy = (4, 0, 8, 4), conf = 0.3\<rparr>,
                 \<lparr>xyxy = (2, 2, 6, 6), conf = 0.5\<rparr>]"
  let ?locs = "[(0, 4, 4, 0), (2, 6, 6, 2)] :: (int \<times> int \<times> int \<times> int) list"
  let ?thin = "[(0, 4, 4, 0), (4, 4, 4, 0), (2, 6, 6, 2)] :: (int \<times> int \<times> int \<times> int) list"
  have e: "faces empty_state = []"
    by (simp add: empty_state_def)
  have u: "[0..<3] = [0, 1, 2]" "[0..<2] = [0, 1]" "[0..<1] = [0]"
    by (simp_all add: upt_rec)
  have h1: "yolo_model scenario_env 11 = Inr ?boxes"
    by (simp add: scenario_env_def)
  have h2: "\<forall>i < length ?boxes. anime_name 5 i \<notin> fst ` set (faces empty_state)"
    by (simp add: empty_state_def)
  have acc: "accepted ?boxes = [(0, \<lparr>xyxy = (0, 0, 4, 4), conf = 0.9\<rparr>),
                                (2, \<lparr>xyxy = (2, 2, 6, 6), conf = 0.5\<rparr>)]"
    by (simp add: accepted_def enumerate_eq_zip)
  have "written_boxes scenario_env 11 ?boxes = [(0, \<lparr>xyxy = (0, 0, 4, 4), conf = 0.9\<rparr>),
                                                (2, \<lparr>xyxy = (2, 2, 6, 6), conf = 0.5\<rparr>)]"
    unfolding written_boxes_def acc
    by (simp add: scenario_env_def empty_image_def slice_len_def slice_bound_def box_crop_def
        py_int_def)
  with acc have wr: "written_boxes scenario_env 11 ?boxes = accepted ?boxes"
    by simp
  from region_ordinals [of scenario_env 11 ?boxes 5 empty_state, THEN conjunct1] h1 h2 wr
  have "fst (detect_faces_anime scenario_env 11 5 empty_state)
             = Inr (map (\<lambda>i. join faces_dir (anime_name 5 i))
                     (filter (\<lambda>i. conf (?boxes ! i) \<ge> 0.5) [0..<length ?boxes]))
        \<and> mset (map fst (faces (snd (detect_faces_anime scenario_env 11 5 empty_state))))
            = mset (map fst (faces empty_state))
              + mset (map (\<lambda>(i, b). anime_name 5 i) (written_boxes scenario_env 11 ?boxes))"
    by blast
  then have a: "fst (detect_faces_anime scenario_env 11 5 empty_state) =
       Inr [''/ScreenCap/Work/faces/anime_face_5_0.jpg'', ''/ScreenCap/Work/faces/anime_face_5_2.jpg'']
     \<and> mset (map fst (faces (snd (detect_faces_anime scenario_env 11 5 empty_state)))) =
         mset [''anime_face_5_0.jpg'', ''anime_face_5_2.jpg'']"
    unfolding wr acc by (simp add: e u anime_name_def path_simps)
  have g1: "face_locations scenario_env 11 = Inr ?locs"
    by (simp add: scenario_env_def)
  have g2: "\<forall>i < length ?locs. realistic_name 5 i \<notin> fst ` set (faces empty_state)"
    by (simp add: empty_state_def)
  have wl: "written_locations scenario_env 11 ?locs = enumerate 0 ?locs"
    by (simp add: written_locations_def scenario_env_def enumerate_eq_zip empty_image_def
        slice_len_def slice_bound_def location_crop_def)
  from region_ordinals [where env = scenario_env and frame = 11 and locs = ?locs and fc = 5
      and st = empty_state, THEN conjunct2, THEN conjunct1] g1 g2 wl
  have "fst (detect_faces_realistic scenario_env 11 5 empty_state)
             = Inr (map (\<lambda>i. join faces_dir (realistic_name 5 i)) [0..<length ?locs])
        \<and> mset (map fst (faces (snd (detect_faces_realistic scenario_env 11 5 empty_state))))
            = mset (map fst (faces empty_state))
              + mset (map (realistic_name 5) [0..<length (written_locations scenario_env 11 ?locs)])"
    by blast
  then have b: "fst (detect_faces_realistic scenario_env 11 5 empty_state) =
       Inr [''/ScreenCap/Work/faces/realistic_face_5_0.jpg'',
            ''/ScreenCap/Work/faces/realistic_face_5_1.jpg'']
     \<and> mset (map fst (faces (snd (detect_faces_realistic scenario_env 11 5 empty_state)))) =
         mset [''realistic_face_5_0.jpg'', ''realistic_face_5_1.jpg'']"
    unfolding wl by (simp add: e u realistic_name_def path_simps)
  have t1: "face_locations thin_box_env 11 = Inr ?thin"
    by (simp add: thin_box_env_def)
  have t2: "\<forall>i < length ?thin. realistic_name 5 i \<notin> fst ` set (faces empty_state)"
    by (simp add: empty_state_def)
  have tl: "written_locations thin_box_env 11 ?thin = [(0, (0, 4, 4, 0))]"
    by (simp add: written_locations_def thin_box_env_def enumerate_eq_zip empty_image_def
        slice_len_def slice_bound_def location_crop_def)
  from region_ordinals [where env = thin_box_env and frame = 11 and locs = ?thin and fc = 5
      and st = empty_state, THEN conjunct2, THEN conjunct1] t1 t2
  have "mset (map fst (faces (snd (detect_faces_realistic thin_box_env 11 5 empty_state))))
            = mset (map fst (faces empty_state))
              + mset (map (realistic_name 5) [0..<length (written_locations thin_box_env 11 ?thin)])"
    by blast
  then have c: "mset (map fst (faces (snd (detect_faces_realistic thin_box_env 11 5 empty_state)))) =
       mset [''realistic_face_5_0.jpg'']"
    unfolding tl by (simp add: e u realistic_name_def)
  from a b c t1 show ?thesis by simp
qed

end
